theory Spec2Isabelle
  imports Main "HOL-Library.Multiset"
begin

section \<open>Data model (courseTypes.ts)\<close>

text \<open>
  \<^verbatim>\<open>interface CourseInfo { classId: number; subject: String; }\<close>
  The class identifier is an integer in the input contract, so \<open>classId\<close> is an \<open>int\<close>.
\<close>

record CourseInfo =
  classId :: int
  subject :: string

text \<open>
  \<^verbatim>\<open>type PreReqValue = CourseInfo | PreReq\<close> with
  \<^verbatim>\<open>interface PreReq { type: PreReqType; values: Array<PreReqValue>; }\<close>.
  The values come out of \<^verbatim>\<open>JSON.parse\<close> and the program tells the two members of the
  union apart at run time by the presence of fields (\<^verbatim>\<open>isCourseInfo\<close>) and compares
  the \<^verbatim>\<open>type\<close> field with the strings of the enum, with a branch for anything else.
  A prerequisite value is therefore modelled as the object the program inspects: each of
  the four fields of the two interfaces is present or absent, and the tag is a string.
\<close>

datatype PreReqValue =
  Obj (classId_field: "int option") (subject_field: "string option")
      (type_field: "string option") (values_field: "PreReqValue list option")

type_synonym PreReq = PreReqValue

text \<open>\<^verbatim>\<open>enum PreReqType { AND = "and", OR = "or" }\<close>\<close>

definition AND :: string where "AND = ''and''"
definition OR :: string where "OR = ''or''"

text \<open>\<^verbatim>\<open>interface Course extends CourseInfo { prereqs: PreReq; }\<close>\<close>

record Course = CourseInfo +
  prereqs :: PreReq

type_synonym CourseUID = string

text \<open>
  The two shapes the input contract describes: a leaf carries exactly \<open>classId\<close> and
  \<open>subject\<close>, an internal node carries exactly \<open>type\<close> and \<open>values\<close>.
\<close>

definition leaf :: "string \<Rightarrow> int \<Rightarrow> PreReqValue" where
  "leaf s i = Obj (Some i) (Some s) None None"

definition node :: "string \<Rightarrow> PreReqValue list \<Rightarrow> PreReqValue" where
  "node t vs = Obj None None (Some t) (Some vs)"

section \<open>The taken-courses map\<close>

text \<open>
  \<^verbatim>\<open>Map<CourseUID, Course>\<close> keeps its entries in insertion order. \<^verbatim>\<open>set\<close> on a
  key that is already present replaces the value and keeps the entry's position; on a new
  key it appends the entry. The map is an association list in insertion order.
\<close>

type_synonym takenMap = "(CourseUID \<times> Course) list"

fun map_set :: "CourseUID \<Rightarrow> Course \<Rightarrow> takenMap \<Rightarrow> takenMap" where
  "map_set k v [] = [(k, v)]"
| "map_set k v ((k', v') # m) = (if k' = k then (k', v) # m else (k', v') # map_set k v m)"

definition map_has :: "CourseUID \<Rightarrow> takenMap \<Rightarrow> bool" where
  "map_has k m = (k \<in> fst ` set m)"

definition map_size :: "takenMap \<Rightarrow> nat" where
  "map_size m = length m"

definition map_values :: "takenMap \<Rightarrow> Course list" where
  "map_values m = map snd m"

section \<open>Course identifiers\<close>

text \<open>
  The template literal \<^verbatim>\<open>`${course.subject}${course.classId}`\<close> appends the string of the
  number to the subject. For a safe integer (absolute value at most \<open>2^53 - 1\<close>,
  \<^verbatim>\<open>Number.MAX_SAFE_INTEGER\<close>) the language prints the decimal numeral, with a leading
  minus sign when negative. Beyond that range it prints the shortest digits that identify
  the floating-point number, padded with zeros, and switches to exponent form from
  \<open>10^21\<close> (\<^verbatim>\<open>1e+21\<close>). That part of the language is not embedded: the string of an
  integer beyond the safe range is given by a parameter, \<open>bigToString\<close>, which every
  function that computes an identifier takes as its first argument, so that what is
  proved holds whatever the language prints there.
\<close>

type_synonym numberPrinter = "int \<Rightarrow> string"

definition digitChar :: "nat \<Rightarrow> char" where
  "digitChar d = ''0123456789'' ! d"

fun natToString :: "nat \<Rightarrow> string" where
  "natToString n =
     (if n < 10 then [digitChar n] else natToString (n div 10) @ [digitChar (n mod 10)])"

declare natToString.simps [simp del]

definition MAX_SAFE_INTEGER :: int where
  "MAX_SAFE_INTEGER = 9007199254740991"

definition numberToString :: "numberPrinter \<Rightarrow> int \<Rightarrow> string" where
  "numberToString bigToString i =
     (if \<bar>i\<bar> \<le> MAX_SAFE_INTEGER then
        (if i < 0 then CHR ''-'' # natToString (nat (- i)) else natToString (nat i))
      else bigToString i)"

definition getCourseUID :: "numberPrinter \<Rightarrow> 'a CourseInfo_scheme \<Rightarrow> CourseUID" where
  "getCourseUID bigToString course =
     subject course @ numberToString bigToString (classId course)"

section \<open>The prerequisite evaluator\<close>

text \<open>
  The two ways evaluation can throw: the explicit
  \<^verbatim>\<open>throw new Error("Unexpected prereq structure.")\<close>, and the \<^verbatim>\<open>TypeError\<close> of
  calling \<^verbatim>\<open>every\<close>/\<^verbatim>\<open>some\<close> on a \<^verbatim>\<open>values\<close> field that is not there.
\<close>

datatype error = UnexpectedPrereqStructure | TypeError

text \<open>\<^verbatim>\<open>"classId" in prereqValue && "subject" in prereqValue\<close>\<close>

definition isCourseInfo :: "PreReqValue \<Rightarrow> bool" where
  "isCourseInfo prereqValue =
     (classId_field prereqValue \<noteq> None \<and> subject_field prereqValue \<noteq> None)"

text \<open>The view of an object as a \<open>CourseInfo\<close>, used once \<open>isCourseInfo\<close> has narrowed it.\<close>

definition asCourseInfo :: "PreReqValue \<Rightarrow> CourseInfo" where
  "asCourseInfo v = \<lparr>classId = the (classId_field v), subject = the (subject_field v)\<rparr>"

definition isCourseTaken ::
  "numberPrinter \<Rightarrow> 'a CourseInfo_scheme \<Rightarrow> takenMap \<Rightarrow> bool" where
  "isCourseTaken bigToString course takenCoursesMap =
     map_has (getCourseUID bigToString course) takenCoursesMap"

text \<open>
  \<open>isPreReqSatisfied\<close> and \<open>isPrereqValueTaken\<close> are mutually recursive in the source.
  \<open>every_checkPrereqValue\<close> and \<open>some_checkPrereqValue\<close> are
  \<^verbatim>\<open>values.every(checkPrereqValue)\<close> and \<^verbatim>\<open>values.some(checkPrereqValue)\<close>: both scan
  from the left, \<open>every\<close> stops at the first unsatisfied value, \<open>some\<close> at the first
  satisfied one, and an exception thrown by the callback ends the scan.
\<close>

fun isPreReqSatisfied :: "numberPrinter \<Rightarrow> PreReq \<Rightarrow> takenMap \<Rightarrow> error + bool"
  and isPrereqValueTaken :: "numberPrinter \<Rightarrow> PreReqValue \<Rightarrow> takenMap \<Rightarrow> error + bool"
  and every_checkPrereqValue :: "numberPrinter \<Rightarrow> PreReqValue list \<Rightarrow> takenMap \<Rightarrow> error + bool"
  and some_checkPrereqValue :: "numberPrinter \<Rightarrow> PreReqValue list \<Rightarrow> takenMap \<Rightarrow> error + bool"
where
  "isPreReqSatisfied bigToString (Obj ci su ty vs) takenCoursesMap =
     (if ty = Some AND then
        (case vs of None \<Rightarrow> Inl TypeError
         | Some values \<Rightarrow> every_checkPrereqValue bigToString values takenCoursesMap)
      else if ty = Some OR then
        (case vs of None \<Rightarrow> Inl TypeError
         | Some values \<Rightarrow> some_checkPrereqValue bigToString values takenCoursesMap)
      else Inl UnexpectedPrereqStructure)"
| "isPrereqValueTaken bigToString (Obj ci su ty vs) takenCoursesMap =
     (if isCourseInfo (Obj ci su ty vs)
      then Inr (isCourseTaken bigToString (asCourseInfo (Obj ci su ty vs)) takenCoursesMap)
      else isPreReqSatisfied bigToString (Obj ci su ty vs) takenCoursesMap)"
| "every_checkPrereqValue bigToString [] takenCoursesMap = Inr True"
| "every_checkPrereqValue bigToString (v # values) takenCoursesMap =
     (case isPrereqValueTaken bigToString v takenCoursesMap of
        Inl e \<Rightarrow> Inl e
      | Inr b \<Rightarrow> if b then every_checkPrereqValue bigToString values takenCoursesMap else Inr False)"
| "some_checkPrereqValue bigToString [] takenCoursesMap = Inr False"
| "some_checkPrereqValue bigToString (v # values) takenCoursesMap =
     (case isPrereqValueTaken bigToString v takenCoursesMap of
        Inl e \<Rightarrow> Inl e
      | Inr b \<Rightarrow> if b then Inr True else some_checkPrereqValue bigToString values takenCoursesMap)"

section \<open>The plan resolver\<close>

text \<open>
  \<^verbatim>\<open>courses.filter((course) => { ... })\<close> of the loop body. The callback adds a course
  whose prerequisites are satisfied to the map and filters it out, so a course taken
  earlier in the scan is in the map when a later course is evaluated. The result is the
  list of the courses kept and the map after the scan; an exception of the evaluator
  ends the scan.
\<close>

fun filterCourses ::
  "numberPrinter \<Rightarrow> Course list \<Rightarrow> takenMap \<Rightarrow> error + (Course list \<times> takenMap)" where
  "filterCourses bigToString [] takenCoursesMap = Inr ([], takenCoursesMap)"
| "filterCourses bigToString (course # courses) takenCoursesMap =
     (case isPreReqSatisfied bigToString (prereqs course) takenCoursesMap of
        Inl e \<Rightarrow> Inl e
      | Inr satisfied \<Rightarrow>
          if satisfied then
            filterCourses bigToString courses
              (map_set (getCourseUID bigToString course) course takenCoursesMap)
          else
            (case filterCourses bigToString courses takenCoursesMap of
               Inl e \<Rightarrow> Inl e
             | Inr (remainingCourses, m) \<Rightarrow> Inr (course # remainingCourses, m)))"

text \<open>\<^verbatim>\<open>takenCourses.size === coursesAmount\<close>\<close>

definition areAllCoursesTaken :: "nat \<Rightarrow> takenMap \<Rightarrow> bool" where
  "areAllCoursesTaken coursesAmount takenCourses = (map_size takenCourses = coursesAmount)"

text \<open>
  The \<^verbatim>\<open>while\<close> loop. Its state is the three variables the body assigns
  (\<open>courses\<close>, \<open>takenCoursesMap\<close>, \<open>solutionIsPossible\<close>) and a counter of the rounds
  executed, which the source does not have and on which no other variable depends. The
  loop returns the state at its exit, or the exception that ended it, and the counter.
\<close>

function majorPlanLoop ::
  "numberPrinter \<Rightarrow> nat \<Rightarrow> Course list \<Rightarrow> takenMap \<Rightarrow> bool \<Rightarrow> nat
     \<Rightarrow> nat \<times> (error + (takenMap \<times> bool))" where
  "majorPlanLoop bigToString coursesAmount courses takenCoursesMap solutionIsPossible rounds =
     (if \<not> areAllCoursesTaken coursesAmount takenCoursesMap \<and> solutionIsPossible then
        (case filterCourses bigToString courses takenCoursesMap of
           Inl e \<Rightarrow> (Suc rounds, Inl e)
         | Inr (remainingCourses, m) \<Rightarrow>
             majorPlanLoop bigToString coursesAmount remainingCourses m
               (length remainingCourses < length courses) (Suc rounds))
      else (rounds, Inr (takenCoursesMap, solutionIsPossible)))"
  by pat_completeness auto
termination
proof (relation "measure (\<lambda>(b, a, cs, m, p, r). 2 * length cs + (if p then 1 else 0))")
  show "wf (measure (\<lambda>(b, a, cs, m, p, r). 2 * length cs + (if p then 1 else 0)))"
    by simp
next
  fix bigToString coursesAmount courses takenCoursesMap solutionIsPossible rounds x2 x y
  assume run: "\<not> areAllCoursesTaken coursesAmount takenCoursesMap \<and> solutionIsPossible"
    and res: "filterCourses bigToString courses takenCoursesMap = Inr x2" and x2: "(x, y) = x2"
  have kept: "length r \<le> length cs" if "filterCourses bigToString cs m = Inr (r, m')" for cs m r m'
    using that
  proof (induction cs arbitrary: m r m')
    case Nil
    then show ?case by simp
  next
    case (Cons c cs)
    then show ?case
      by (fastforce split: sum.splits if_splits prod.splits)
  qed
  from res x2 have "length x \<le> length courses"
    using kept [of courses takenCoursesMap x y] by simp
  with run show "((bigToString, coursesAmount, x, y, length x < length courses, Suc rounds),
              bigToString, coursesAmount, courses, takenCoursesMap, solutionIsPossible, rounds)
             \<in> measure (\<lambda>(b, a, cs, m, p, r). 2 * length cs + (if p then 1 else 0))"
    by auto
qed

declare majorPlanLoop.simps [simp del]

text \<open>The number of rounds the loop of \<open>determineMajorPlan\<close> executes on an input.\<close>

definition roundsExecuted :: "numberPrinter \<Rightarrow> Course list \<Rightarrow> nat" where
  "roundsExecuted bigToString courses =
     fst (majorPlanLoop bigToString (length courses) courses [] True 0)"

text \<open>
  \<open>determineMajorPlan\<close>: \<open>Inr (Some plan)\<close> is the returned list, \<open>Inr None\<close> is
  \<^verbatim>\<open>null\<close>, \<open>Inl e\<close> is an exception leaving the function.
\<close>

definition determineMajorPlan ::
  "numberPrinter \<Rightarrow> Course list \<Rightarrow> error + Course list option" where
  "determineMajorPlan bigToString courses =
     (let coursesAmount = length courses in
      case snd (majorPlanLoop bigToString coursesAmount courses [] True 0) of
        Inl e \<Rightarrow> Inl e
      | Inr (takenCoursesMap, solutionIsPossible) \<Rightarrow>
          if solutionIsPossible then Inr (Some (map_values takenCoursesMap)) else Inr None)"

section \<open>Vocabulary of the properties\<close>

text \<open>
  The declared types, read on the objects: an object has type \<open>PreReq\<close> when its tag is
  one of the two enum strings and its \<open>values\<close> field is an array of values of type
  \<open>PreReqValue\<close>; it has type \<open>PreReqValue\<close> when it is a \<open>CourseInfo\<close> (it carries
  \<open>classId\<close> and \<open>subject\<close>) or a \<open>PreReq\<close>.
\<close>

fun hasTypePreReq :: "PreReqValue \<Rightarrow> bool"
  and hasTypePreReqValue :: "PreReqValue \<Rightarrow> bool"
  and hasTypePreReqValues :: "PreReqValue list \<Rightarrow> bool"
where
  "hasTypePreReq (Obj ci su ty vs) =
     ((ty = Some AND \<or> ty = Some OR) \<and>
      (case vs of None \<Rightarrow> False | Some values \<Rightarrow> hasTypePreReqValues values))"
| "hasTypePreReqValue (Obj ci su ty vs) =
     (isCourseInfo (Obj ci su ty vs) \<or> hasTypePreReq (Obj ci su ty vs))"
| "hasTypePreReqValues [] = True"
| "hasTypePreReqValues (v # values) = (hasTypePreReqValue v \<and> hasTypePreReqValues values)"

definition wellTyped :: "Course list \<Rightarrow> bool" where
  "wellTyped courses = list_all (\<lambda>c. hasTypePreReq (prereqs c)) courses"

text \<open>
  The course identifiers an expression leaf-references, at any depth. A child that
  \<open>isCourseInfo\<close> accepts is a leaf; any other child is read as a node.
\<close>

fun leafRefs :: "numberPrinter \<Rightarrow> PreReq \<Rightarrow> CourseUID list"
  and leafRefsValue :: "numberPrinter \<Rightarrow> PreReqValue \<Rightarrow> CourseUID list"
  and leafRefsValues :: "numberPrinter \<Rightarrow> PreReqValue list \<Rightarrow> CourseUID list"
where
  "leafRefs bigToString (Obj ci su ty vs) =
     (case vs of None \<Rightarrow> [] | Some values \<Rightarrow> leafRefsValues bigToString values)"
| "leafRefsValue bigToString (Obj ci su ty vs) =
     (if isCourseInfo (Obj ci su ty vs)
      then [getCourseUID bigToString (asCourseInfo (Obj ci su ty vs))]
      else leafRefs bigToString (Obj ci su ty vs))"
| "leafRefsValues bigToString [] = []"
| "leafRefsValues bigToString (v # values) =
     leafRefsValue bigToString v @ leafRefsValues bigToString values"

text \<open>No \<open>or\<close> node of the expression has an empty list of values.\<close>

fun noEmptyAny :: "PreReq \<Rightarrow> bool"
  and noEmptyAnyValue :: "PreReqValue \<Rightarrow> bool"
  and noEmptyAnyValues :: "PreReqValue list \<Rightarrow> bool"
where
  "noEmptyAny (Obj ci su ty vs) =
     ((ty = Some OR \<longrightarrow> vs \<noteq> Some []) \<and>
      (case vs of None \<Rightarrow> True | Some values \<Rightarrow> noEmptyAnyValues values))"
| "noEmptyAnyValue (Obj ci su ty vs) =
     (isCourseInfo (Obj ci su ty vs) \<or> noEmptyAny (Obj ci su ty vs))"
| "noEmptyAnyValues [] = True"
| "noEmptyAnyValues (v # values) = (noEmptyAnyValue v \<and> noEmptyAnyValues values)"

text \<open>Every node of the expression is an \<open>and\<close> node.\<close>

fun allOnly :: "PreReq \<Rightarrow> bool"
  and allOnlyValue :: "PreReqValue \<Rightarrow> bool"
  and allOnlyValues :: "PreReqValue list \<Rightarrow> bool"
where
  "allOnly (Obj ci su ty vs) =
     (ty = Some AND \<and> (case vs of None \<Rightarrow> False | Some values \<Rightarrow> allOnlyValues values))"
| "allOnlyValue (Obj ci su ty vs) =
     (isCourseInfo (Obj ci su ty vs) \<or> allOnly (Obj ci su ty vs))"
| "allOnlyValues [] = True"
| "allOnlyValues (v # values) = (allOnlyValue v \<and> allOnlyValues values)"

text \<open>
  The dependency graph of a course list: an edge from a course to every course of the
  list whose identifier its prerequisite expression leaf-references.
\<close>

definition dependsOn :: "numberPrinter \<Rightarrow> Course list \<Rightarrow> (Course \<times> Course) set" where
  "dependsOn bigToString courses =
     {(c, d). c \<in> set courses \<and> d \<in> set courses \<and>
        getCourseUID bigToString d \<in> set (leafRefs bigToString (prereqs c))}"

definition refsResolvable :: "numberPrinter \<Rightarrow> Course list \<Rightarrow> bool" where
  "refsResolvable bigToString courses =
     list_all
       (\<lambda>c. list_all (\<lambda>u. u \<in> set (map (getCourseUID bigToString) courses))
          (leafRefs bigToString (prereqs c)))
       courses"

text \<open>The map that holds exactly the given courses, in their order.\<close>

definition takenOf :: "numberPrinter \<Rightarrow> Course list \<Rightarrow> takenMap" where
  "takenOf bigToString courses = map (\<lambda>c. (getCourseUID bigToString c, c)) courses"

text \<open>
  Replaying a list of courses from a map: each course's prerequisite expression is
  satisfied against the map extended by the courses before it.
\<close>

fun satisfiedInOrder :: "numberPrinter \<Rightarrow> takenMap \<Rightarrow> Course list \<Rightarrow> bool" where
  "satisfiedInOrder bigToString m [] = True"
| "satisfiedInOrder bigToString m (c # cs) =
     (isPreReqSatisfied bigToString (prereqs c) m = Inr True \<and>
      satisfiedInOrder bigToString (m @ takenOf bigToString [c]) cs)"

text \<open>
  The closed statements below are about inputs whose class identifiers are safe integers,
  on which the string of a larger number is never asked for; \<open>noBigNumbers\<close> stands for
  the parameter there.
\<close>

definition noBigNumbers :: numberPrinter where
  "noBigNumbers i = []"

section \<open>Evaluation on concrete inputs\<close>

lemmas eval_defs = AND_def OR_def node_def leaf_def isCourseInfo_def isCourseTaken_def asCourseInfo_def
  map_has_def getCourseUID_def numberToString_def MAX_SAFE_INTEGER_def digitChar_def

lemma numberToString_safe:
  "\<bar>i\<bar> \<le> MAX_SAFE_INTEGER \<Longrightarrow> numberToString bigToString i = numberToString bigToString' i"
  by (simp add: numberToString_def)

section \<open>Properties of the evaluator\<close>

lemmas evaluator_induct =
  isPreReqSatisfied_isPrereqValueTaken_every_checkPrereqValue_some_checkPrereqValue.induct

lemma AND_neq_OR [simp]: "AND \<noteq> OR" "OR \<noteq> AND"
  by (simp_all add: AND_def OR_def)

lemma grows_aux:
  shows "\<forall>k. map_has k S \<longrightarrow> map_has k T \<Longrightarrow>
         isPreReqSatisfied bigToString p S = Inr True \<Longrightarrow> isPreReqSatisfied bigToString p T \<noteq> Inr False"
    and "\<forall>k. map_has k S \<longrightarrow> map_has k T \<Longrightarrow>
         isPrereqValueTaken bigToString v S = Inr True \<Longrightarrow> isPrereqValueTaken bigToString v T \<noteq> Inr False"
    and "\<forall>k. map_has k S \<longrightarrow> map_has k T \<Longrightarrow>
         every_checkPrereqValue bigToString vs S = Inr True \<Longrightarrow> every_checkPrereqValue bigToString vs T \<noteq> Inr False"
    and "\<forall>k. map_has k S \<longrightarrow> map_has k T \<Longrightarrow>
         some_checkPrereqValue bigToString ws S = Inr True \<Longrightarrow> some_checkPrereqValue bigToString ws T \<noteq> Inr False"
proof (induction bigToString p S and bigToString v S and bigToString vs S and bigToString ws S rule: evaluator_induct)
  case (1 bigToString ci su ty vs takenCoursesMap)
  then show ?case by (auto split: if_splits option.splits)
next
  case (2 bigToString ci su ty vs takenCoursesMap)
  then show ?case by (auto simp: isCourseTaken_def split: if_splits)
next
  case (3 bigToString takenCoursesMap)
  then show ?case by simp
next
  case (4 bigToString v "values" takenCoursesMap)
  then show ?case by (auto split: sum.splits if_splits)
next
  case (5 bigToString takenCoursesMap)
  then show ?case by simp
next
  case (6 bigToString v "values" takenCoursesMap)
  then show ?case by (auto split: sum.splits if_splits)
qed

lemma typed_total:
  shows "hasTypePreReq p \<Longrightarrow> \<not> isl (isPreReqSatisfied bigToString p m)"
    and "hasTypePreReqValue v \<Longrightarrow> \<not> isl (isPrereqValueTaken bigToString v m)"
    and "hasTypePreReqValues vs \<Longrightarrow> \<not> isl (every_checkPrereqValue bigToString vs m)"
    and "hasTypePreReqValues ws \<Longrightarrow> \<not> isl (some_checkPrereqValue bigToString ws m)"
proof (induction bigToString p m and bigToString v m and bigToString vs m and bigToString ws m rule: evaluator_induct)
  case (1 bigToString ci su ty vs takenCoursesMap)
  then show ?case by (auto split: if_splits option.splits)
next
  case (2 bigToString ci su ty vs takenCoursesMap)
  then show ?case by (auto split: if_splits)
next
  case (3 bigToString takenCoursesMap)
  then show ?case by simp
next
  case (4 bigToString v "values" takenCoursesMap)
  then show ?case by (auto split: sum.splits if_splits)
next
  case (5 bigToString takenCoursesMap)
  then show ?case by simp
next
  case (6 bigToString v "values" takenCoursesMap)
  then show ?case by (auto split: sum.splits if_splits)
qed

lemma refs_taken_satisfied:
  shows "hasTypePreReq p \<Longrightarrow> noEmptyAny p \<Longrightarrow> \<forall>u\<in>set (leafRefs bigToString p). map_has u m
           \<Longrightarrow> isPreReqSatisfied bigToString p m = Inr True"
    and "hasTypePreReqValue v \<Longrightarrow> noEmptyAnyValue v \<Longrightarrow> \<forall>u\<in>set (leafRefsValue bigToString v). map_has u m
           \<Longrightarrow> isPrereqValueTaken bigToString v m = Inr True"
    and "hasTypePreReqValues vs \<Longrightarrow> noEmptyAnyValues vs \<Longrightarrow> \<forall>u\<in>set (leafRefsValues bigToString vs). map_has u m
           \<Longrightarrow> every_checkPrereqValue bigToString vs m = Inr True"
    and "hasTypePreReqValues ws \<Longrightarrow> noEmptyAnyValues ws \<Longrightarrow> \<forall>u\<in>set (leafRefsValues bigToString ws). map_has u m
           \<Longrightarrow> ws \<noteq> [] \<Longrightarrow> some_checkPrereqValue bigToString ws m = Inr True"
proof (induction bigToString p m and bigToString v m and bigToString vs m and bigToString ws m rule: evaluator_induct)
  case (1 bigToString ci su ty vs takenCoursesMap)
  then show ?case by (auto split: if_splits option.splits)
next
  case (2 bigToString ci su ty vs takenCoursesMap)
  then show ?case by (auto simp: isCourseTaken_def split: if_splits)
next
  case (3 bigToString takenCoursesMap)
  then show ?case by simp
next
  case (4 bigToString v "values" takenCoursesMap)
  then show ?case by (auto split: sum.splits if_splits)
next
  case (5 bigToString takenCoursesMap)
  then show ?case by simp
next
  case (6 bigToString v "values" takenCoursesMap)
  then show ?case by (auto split: sum.splits if_splits)
qed

lemma allOnly_satisfied_refs:
  shows "allOnly p \<Longrightarrow> isPreReqSatisfied bigToString p m = Inr True \<Longrightarrow> \<forall>u\<in>set (leafRefs bigToString p). map_has u m"
    and "allOnlyValue v \<Longrightarrow> isPrereqValueTaken bigToString v m = Inr True \<Longrightarrow> \<forall>u\<in>set (leafRefsValue bigToString v). map_has u m"
    and "allOnlyValues vs \<Longrightarrow> every_checkPrereqValue bigToString vs m = Inr True
           \<Longrightarrow> \<forall>u\<in>set (leafRefsValues bigToString vs). map_has u m"
    and "allOnlyValues ws \<Longrightarrow> some_checkPrereqValue bigToString ws m = Inr True \<Longrightarrow> ws \<noteq> []"
proof (induction bigToString p m and bigToString v m and bigToString vs m and bigToString ws m rule: evaluator_induct)
  case (1 bigToString ci su ty vs takenCoursesMap)
  then show ?case by (auto split: if_splits option.splits)
next
  case (2 bigToString ci su ty vs takenCoursesMap)
  then show ?case by (auto simp: isCourseTaken_def split: if_splits)
next
  case (3 bigToString takenCoursesMap)
  then show ?case by simp
next
  case (4 bigToString v "values" takenCoursesMap)
  then show ?case by (auto split: sum.splits if_splits)
next
  case (5 bigToString takenCoursesMap)
  then show ?case by simp
next
  case (6 bigToString v "values" takenCoursesMap)
  then show ?case by simp
qed

section \<open>Properties of the map\<close>

lemma keys_map_set: "fst ` set (map_set k v m) = insert k (fst ` set m)"
proof (induction m)
  case Nil
  show ?case by simp
next
  case (Cons p m)
  obtain k' v' where p: "p = (k', v')" by (cases p)
  show ?case
  proof (cases "k' = k")
    case True
    with p show ?thesis by simp
  next
    case False
    with p Cons.IH show ?thesis by (simp add: insert_commute)
  qed
qed

lemma map_has_map_set [simp]: "map_has k (map_set k' v m) = (k = k' \<or> map_has k m)"
  by (simp add: map_has_def keys_map_set)

lemma map_set_new: "\<not> map_has k m \<Longrightarrow> map_set k v m = m @ [(k, v)]"
  by (induction m) (auto simp: map_has_def)

lemma distinct_keys_map_set: "distinct (map fst m) \<Longrightarrow> distinct (map fst (map_set k v m))"
proof (induction m)
  case Nil
  show ?case by simp
next
  case (Cons p m)
  obtain k' v' where p: "p = (k', v')" by (cases p)
  show ?case
  proof (cases "k' = k")
    case True
    with p Cons.prems show ?thesis by simp
  next
    case False
    with p Cons show ?thesis by (simp add: keys_map_set)
  qed
qed

lemma map_has_takenOf [simp]: "map_has k (takenOf bigToString cs) = (k \<in> getCourseUID bigToString ` set cs)"
  by (auto simp: map_has_def takenOf_def image_iff)

lemma takenOf_append [simp]: "takenOf bigToString (xs @ ys) = takenOf bigToString xs @ takenOf bigToString ys"
  by (simp add: takenOf_def)

lemma map_values_takenOf [simp]: "map_values (takenOf bigToString cs) = cs"
  by (simp add: map_values_def takenOf_def comp_def)

lemma length_takenOf [simp]: "length (takenOf bigToString cs) = length cs"
  by (simp add: takenOf_def)

section \<open>Properties of one scan\<close>

lemma filterCourses_length:
  "filterCourses bigToString cs m = Inr (r, m') \<Longrightarrow> length r \<le> length cs"
proof (induction cs arbitrary: m r m')
  case Nil
  then show ?case by simp
next
  case (Cons c cs)
  then show ?case
    by (fastforce split: sum.splits if_splits prod.splits)
qed

lemma filterCourses_subset:
  "filterCourses bigToString cs m = Inr (r, m') \<Longrightarrow> set r \<subseteq> set cs"
proof (induction cs arbitrary: m r m')
  case Nil
  then show ?case by simp
next
  case (Cons c cs)
  then show ?case
    by (fastforce split: sum.splits if_splits prod.splits)
qed

lemma filterCourses_keys:
  "filterCourses bigToString cs m = Inr (r, m') \<Longrightarrow>
     fst ` set m \<subseteq> fst ` set m' \<and> fst ` set m' \<subseteq> fst ` set m \<union> getCourseUID bigToString ` set cs"
proof (induction cs arbitrary: m r m')
  case Nil
  then show ?case by simp
next
  case (Cons c cs)
  show ?case
  proof (cases "isPreReqSatisfied bigToString (prereqs c) m")
    case (Inl e)
    with Cons.prems show ?thesis by simp
  next
    case (Inr b)
    show ?thesis
    proof (cases b)
      case True
      with Inr Cons.prems
      have "filterCourses bigToString cs (map_set (getCourseUID bigToString c) c m) = Inr (r, m')" by simp
      from Cons.IH [OF this] show ?thesis by (auto simp: keys_map_set)
    next
      case False
      with Inr Cons.prems obtain r' where "filterCourses bigToString cs m = Inr (r', m')"
        by (auto split: sum.splits prod.splits)
      from Cons.IH [OF this] show ?thesis by auto
    qed
  qed
qed

lemma filterCourses_distinct_keys:
  "filterCourses bigToString cs m = Inr (r, m') \<Longrightarrow> distinct (map fst m) \<Longrightarrow> distinct (map fst m')"
proof (induction cs arbitrary: m r m')
  case Nil
  then show ?case by simp
next
  case (Cons c cs)
  then show ?case
    by (fastforce split: sum.splits if_splits prod.splits intro: distinct_keys_map_set)
qed

lemma filterCourses_typed:
  "list_all (\<lambda>c. hasTypePreReq (prereqs c)) cs \<Longrightarrow> \<not> isl (filterCourses bigToString cs m)"
proof (induction cs arbitrary: m)
  case Nil
  then show ?case by simp
next
  case (Cons c cs)
  then have "\<not> isl (isPreReqSatisfied bigToString (prereqs c) m)"
    by (simp add: typed_total(1))
  with Cons show ?case
    by (auto split: sum.splits prod.splits simp: isl_def)
qed

lemma filterCourses_progress:
  "filterCourses bigToString cs m = Inr (r, m') \<Longrightarrow> c \<in> set cs \<Longrightarrow>
   isPreReqSatisfied bigToString (prereqs c) m = Inr True \<Longrightarrow> length r < length cs"
proof (induction cs arbitrary: r)
  case Nil
  then show ?case by simp
next
  case (Cons x cs)
  show ?case
  proof (cases "isPreReqSatisfied bigToString (prereqs x) m")
    case (Inl e)
    with Cons.prems show ?thesis by simp
  next
    case (Inr b)
    show ?thesis
    proof (cases b)
      case True
      with Inr Cons.prems
      have "filterCourses bigToString cs (map_set (getCourseUID bigToString x) x m) = Inr (r, m')" by simp
      from filterCourses_length [OF this] show ?thesis by simp
    next
      case False
      with Inr Cons.prems obtain r' where r': "filterCourses bigToString cs m = Inr (r', m')" "r = x # r'"
        by (auto split: sum.splits prod.splits)
      from False Inr Cons.prems have "c \<in> set cs" by auto
      from Cons.IH [OF r'(1) this Cons.prems(3)] r'(2) show ?thesis by simp
    qed
  qed
qed

lemma filterCourses_taken:
  "filterCourses bigToString cs m = Inr (r, m') \<Longrightarrow> distinct (map (getCourseUID bigToString) cs) \<Longrightarrow>
   getCourseUID bigToString ` set cs \<inter> fst ` set m = {} \<Longrightarrow>
   \<exists>tk. m' = m @ takenOf bigToString tk \<and> mset tk + mset r = mset cs \<and> satisfiedInOrder bigToString m tk"
proof (induction cs arbitrary: m r m')
  case Nil
  then show ?case by (auto simp: takenOf_def intro: exI [of _ "[]"])
next
  case (Cons c cs)
  show ?case
  proof (cases "isPreReqSatisfied bigToString (prereqs c) m")
    case (Inl e)
    with Cons.prems show ?thesis by simp
  next
    case (Inr b)
    show ?thesis
    proof (cases b)
      case True
      from Cons.prems(3) have new: "\<not> map_has (getCourseUID bigToString c) m"
        by (auto simp: map_has_def)
      then have ms: "map_set (getCourseUID bigToString c) c m = m @ takenOf bigToString [c]"
        by (simp add: map_set_new takenOf_def)
      with True Inr Cons.prems
      have run: "filterCourses bigToString cs (m @ takenOf bigToString [c]) = Inr (r, m')" by simp
      have "getCourseUID bigToString ` set cs \<inter> fst ` set (m @ takenOf bigToString [c]) = {}"
        using Cons.prems(2,3) by (auto simp: takenOf_def)
      with Cons.IH [OF run] Cons.prems(2)
      obtain tk where tk: "m' = (m @ takenOf bigToString [c]) @ takenOf bigToString tk" "mset tk + mset r = mset cs"
        "satisfiedInOrder bigToString (m @ takenOf bigToString [c]) tk" by auto
      have "m' = m @ takenOf bigToString (c # tk)" using tk(1) by (simp add: takenOf_def)
      moreover have "mset (c # tk) + mset r = mset (c # cs)" using tk(2) by simp
      moreover have "satisfiedInOrder bigToString m (c # tk)" using tk(3) True Inr by simp
      ultimately show ?thesis by blast
    next
      case False
      with Inr Cons.prems obtain r' where r': "filterCourses bigToString cs m = Inr (r', m')" "r = c # r'"
        by (auto split: sum.splits prod.splits)
      from Cons.prems(2,3) have "distinct (map (getCourseUID bigToString) cs)"
        "getCourseUID bigToString ` set cs \<inter> fst ` set m = {}" by auto
      from Cons.IH [OF r'(1) this] obtain tk where
        "m' = m @ takenOf bigToString tk" "mset tk + mset r' = mset cs" "satisfiedInOrder bigToString m tk" by auto
      with r'(2) show ?thesis by auto
    qed
  qed
qed

lemma satisfiedInOrder_append:
  "satisfiedInOrder bigToString m (xs @ ys) = (satisfiedInOrder bigToString m xs \<and> satisfiedInOrder bigToString (m @ takenOf bigToString xs) ys)"
  by (induction xs arbitrary: m) (auto simp: takenOf_def)

lemma satisfiedInOrder_nth:
  "satisfiedInOrder bigToString m cs \<Longrightarrow> i < length cs \<Longrightarrow>
   isPreReqSatisfied bigToString (prereqs (cs ! i)) (m @ takenOf bigToString (take i cs)) = Inr True"
proof (induction cs arbitrary: m i)
  case Nil
  then show ?case by simp
next
  case (Cons c cs)
  show ?case
  proof (cases i)
    case 0
    with Cons.prems show ?thesis by (simp add: takenOf_def)
  next
    case (Suc j)
    with Cons.prems have "satisfiedInOrder bigToString (m @ takenOf bigToString [c]) cs" "j < length cs" by auto
    from Cons.IH [OF this] Suc show ?thesis by (simp add: takenOf_def)
  qed
qed

section \<open>Properties of the loop\<close>

lemma keys_takenOf: "fst ` set (takenOf bigToString cs) = getCourseUID bigToString ` set cs"
  by (simp add: takenOf_def image_image)

lemma rounds_general:
  "fst (majorPlanLoop bigToString n courses m p k) \<le> k + (if p then length courses + 1 else 0)"
proof (induction bigToString n courses m p k rule: majorPlanLoop.induct)
  case (1 bigToString n courses m p k)
  show ?case
  proof (cases "\<not> areAllCoursesTaken n m \<and> p")
    case False
    then show ?thesis by (subst majorPlanLoop.simps) auto
  next
    case run: True
    show ?thesis
    proof (cases "filterCourses bigToString courses m")
      case (Inl e)
      with run show ?thesis by (subst majorPlanLoop.simps) simp
    next
      case (Inr x2)
      obtain r m' where x2: "x2 = (r, m')" by (cases x2)
      from Inr x2 have len: "length r \<le> length courses"
        by (simp add: filterCourses_length)
      have "fst (majorPlanLoop bigToString n r m' (length r < length courses) (Suc k))
              \<le> Suc k + (if length r < length courses then length r + 1 else 0)"
        using "1.IH" [OF run Inr x2 [symmetric]] .
      also have "\<dots> \<le> k + (length courses + 1)" using len by auto
      finally show ?thesis using run Inr x2
        by (subst majorPlanLoop.simps) simp
    qed
  qed
qed

lemma rounds_distinct:
  "distinct (map (getCourseUID bigToString) courses) \<Longrightarrow> getCourseUID bigToString ` set courses \<inter> fst ` set m = {} \<Longrightarrow>
   length m + length courses = n \<Longrightarrow>
   fst (majorPlanLoop bigToString n courses m True k) \<le> k + length courses"
proof (induction "length courses" arbitrary: courses m k rule: less_induct)
  case less
  show ?case
  proof (cases "areAllCoursesTaken n m")
    case True
    then show ?thesis by (subst majorPlanLoop.simps) simp
  next
    case False
    with less.prems(3) have ne: "0 < length courses"
      by (auto simp: areAllCoursesTaken_def map_size_def)
    show ?thesis
    proof (cases "filterCourses bigToString courses m")
      case (Inl e)
      with False ne show ?thesis by (subst majorPlanLoop.simps) (cases courses; simp)
    next
      case (Inr x2)
      obtain r m' where x2: "x2 = (r, m')" by (cases x2)
      with Inr have run: "filterCourses bigToString courses m = Inr (r, m')" by simp
      from filterCourses_taken [OF run less.prems(1,2)] obtain tk where
        tk: "m' = m @ takenOf bigToString tk" "mset tk + mset r = mset courses" by blast
      from tk(2) have sz: "length tk + length r = length courses"
        by (metis size_mset size_union)
      show ?thesis
      proof (cases "length r < length courses")
        case shorter: True
        from tk(2) have "mset (map (getCourseUID bigToString) (tk @ r)) = mset (map (getCourseUID bigToString) courses)"
          by (metis mset_append mset_map)
        with less.prems(1) have d: "distinct (map (getCourseUID bigToString) (tk @ r))"
          by (metis mset_eq_imp_distinct_iff)
        have sub: "set r \<subseteq> set courses" using run by (rule filterCourses_subset)
        have keys': "fst ` set m' = fst ` set m \<union> getCourseUID bigToString ` set tk"
          using tk(1) by (simp add: image_Un keys_takenOf)
        have a: "getCourseUID bigToString ` set r \<inter> getCourseUID bigToString ` set tk = {}" using d by auto
        have b: "getCourseUID bigToString ` set r \<inter> fst ` set m = {}"
          using sub less.prems(2) by blast
        have disj: "getCourseUID bigToString ` set r \<inter> fst ` set m' = {}"
          by (simp add: keys' Int_Un_distrib a b)
        have dr: "distinct (map (getCourseUID bigToString) r)" using d by simp
        have len: "length m' + length r = n" using tk(1) sz less.prems(3) by simp
        have "fst (majorPlanLoop bigToString n r m' True (Suc k)) \<le> Suc k + length r"
          using shorter dr disj len by (rule less.hyps)
        with shorter False run show ?thesis
          by (subst majorPlanLoop.simps) simp
      next
        case same: False
        have "majorPlanLoop bigToString n r m' False (Suc k) = (Suc k, Inr (m', False))"
          by (subst majorPlanLoop.simps) simp
        with same False run ne show ?thesis
          by (subst majorPlanLoop.simps) (cases courses; simp)
      qed
    qed
  qed
qed

lemma round_progress_or_last:
  assumes "\<not> areAllCoursesTaken n m" and "filterCourses bigToString courses m = Inr (r, m')"
  shows "length r < length courses \<or> majorPlanLoop bigToString n courses m True k = (Suc k, Inr (m', False))"
proof (cases "length r < length courses")
  case True
  then show ?thesis by simp
next
  case False
  have "majorPlanLoop bigToString n r m' False (Suc k) = (Suc k, Inr (m', False))"
    by (subst majorPlanLoop.simps) simp
  with False assms show ?thesis
    by (subst majorPlanLoop.simps) simp
qed

lemma loop_duplicates:
  "card K < n \<Longrightarrow> finite K \<Longrightarrow> distinct (map fst m) \<Longrightarrow> fst ` set m \<subseteq> K \<Longrightarrow>
   getCourseUID bigToString ` set courses \<subseteq> K \<Longrightarrow> snd (majorPlanLoop bigToString n courses m p k) \<noteq> Inr (mf, True)"
proof (induction bigToString n courses m p k rule: majorPlanLoop.induct)
  case (1 bigToString n courses m p k)
  have "length m = card (fst ` set m)"
    using "1.prems"(3) by (metis distinct_card length_map set_map)
  also have "\<dots> \<le> card K" using "1.prems"(2,4) by (simp add: card_mono)
  finally have notall: "\<not> areAllCoursesTaken n m"
    using "1.prems"(1) by (simp add: areAllCoursesTaken_def map_size_def)
  show ?case
  proof (cases p)
    case False
    then show ?thesis by (subst majorPlanLoop.simps) simp
  next
    case True
    show ?thesis
    proof (cases "filterCourses bigToString courses m")
      case (Inl e)
      with True notall show ?thesis by (subst majorPlanLoop.simps) simp
    next
      case (Inr x2)
      obtain r m' where x2: "x2 = (r, m')" by (cases x2)
      with Inr have run: "filterCourses bigToString courses m = Inr (r, m')" by simp
      have "distinct (map fst m')"
        using run "1.prems"(3) by (rule filterCourses_distinct_keys)
      moreover have "fst ` set m' \<subseteq> K"
        using filterCourses_keys [OF run] "1.prems"(4,5) by blast
      moreover have "getCourseUID bigToString ` set r \<subseteq> K"
        using filterCourses_subset [OF run] "1.prems"(5) by blast
      ultimately have "snd (majorPlanLoop bigToString n r m' (length r < length courses) (Suc k)) \<noteq> Inr (mf, True)"
        using "1.IH" [OF _ Inr x2 [symmetric] "1.prems"(1,2)] True notall by blast
      with True notall run show ?thesis by (subst majorPlanLoop.simps) simp
    qed
  qed
qed

lemma loop_typed:
  "list_all (\<lambda>c. hasTypePreReq (prereqs c)) courses \<Longrightarrow> \<not> isl (snd (majorPlanLoop bigToString n courses m p k))"
proof (induction bigToString n courses m p k rule: majorPlanLoop.induct)
  case (1 bigToString n courses m p k)
  show ?case
  proof (cases "\<not> areAllCoursesTaken n m \<and> p")
    case False
    then show ?thesis by (subst majorPlanLoop.simps) auto
  next
    case run: True
    from "1.prems" have "\<not> isl (filterCourses bigToString courses m)" by (rule filterCourses_typed)
    then obtain r m' where res: "filterCourses bigToString courses m = Inr (r, m')"
      by (cases "filterCourses bigToString courses m") auto
    have "list_all (\<lambda>c. hasTypePreReq (prereqs c)) r"
      using filterCourses_subset [OF res] "1.prems" by (auto simp: list_all_iff)
    from "1.IH" [OF run res refl this] run res show ?thesis
      by (subst majorPlanLoop.simps) simp
  qed
qed

lemma filterCourses_grows:
  "filterCourses bigToString cs m = Inr (r, m') \<Longrightarrow> map_has k m \<Longrightarrow> map_has k m'"
  using filterCourses_keys [of bigToString cs m r m'] by (auto simp: map_has_def)

section \<open>Properties of the plan\<close>

lemma finite_dependsOn: "finite (dependsOn bigToString cs)"
proof -
  have "dependsOn bigToString cs \<subseteq> set cs \<times> set cs" by (auto simp: dependsOn_def)
  then show ?thesis by (rule finite_subset) simp
qed

lemma exists_satisfiable:
  assumes typed: "wellTyped cs" and acyc: "acyclic (dependsOn bigToString cs)" and refs: "refsResolvable bigToString cs"
    and nonempty: "list_all (\<lambda>c. noEmptyAny (prereqs c)) cs"
    and split: "set vals \<union> set rem = set cs" and ne: "rem \<noteq> []"
  shows "\<exists>c\<in>set rem. isPreReqSatisfied bigToString (prereqs c) (takenOf bigToString vals) = Inr True"
proof -
  have "wf ((dependsOn bigToString cs)\<inverse>)"
    using finite_dependsOn acyc by (rule finite_acyclic_wf_converse)
  moreover from ne obtain x where "x \<in> set rem" by (cases rem) auto
  ultimately obtain z where z: "z \<in> set rem"
    and least: "\<And>y. (y, z) \<in> (dependsOn bigToString cs)\<inverse> \<Longrightarrow> y \<notin> set rem"
    by (rule wfE_min) blast
  from z split have zcs: "z \<in> set cs" by blast
  have "map_has u (takenOf bigToString vals)" if u: "u \<in> set (leafRefs bigToString (prereqs z))" for u
  proof -
    from refs zcs u have "u \<in> getCourseUID bigToString ` set cs"
      by (auto simp: refsResolvable_def list_all_iff)
    then obtain d where d: "d \<in> set cs" "u = getCourseUID bigToString d" by blast
    with zcs u have "(z, d) \<in> dependsOn bigToString cs" by (simp add: dependsOn_def)
    then have "d \<notin> set rem" using least [of d] by simp
    with d(1) split have "d \<in> set vals" by blast
    with d(2) show ?thesis by simp
  qed
  moreover from typed zcs have "hasTypePreReq (prereqs z)"
    by (simp add: wellTyped_def list_all_iff)
  moreover from nonempty zcs have "noEmptyAny (prereqs z)"
    by (simp add: list_all_iff)
  ultimately have "isPreReqSatisfied bigToString (prereqs z) (takenOf bigToString vals) = Inr True"
    by (intro refs_taken_satisfied(1)) auto
  with z show ?thesis by blast
qed

lemma loop_succeeds:
  assumes typed: "wellTyped cs" and uids: "distinct (map (getCourseUID bigToString) cs)"
    and acyc: "acyclic (dependsOn bigToString cs)" and refs: "refsResolvable bigToString cs"
    and nonempty: "list_all (\<lambda>c. noEmptyAny (prereqs c)) cs"
  shows "mset vals + mset rem = mset cs \<Longrightarrow> satisfiedInOrder bigToString [] vals \<Longrightarrow>
         \<exists>plan. snd (majorPlanLoop bigToString (length cs) rem (takenOf bigToString vals) True k) = Inr (takenOf bigToString plan, True)
               \<and> mset plan = mset cs \<and> satisfiedInOrder bigToString [] plan"
proof (induction "length rem" arbitrary: rem vals k rule: less_induct)
  case less
  from less.prems(1) have sz: "length vals + length rem = length cs"
    by (metis size_mset size_union)
  from less.prems(1) have sets: "set vals \<union> set rem = set cs"
    by (metis set_mset_mset set_mset_union)
  show ?case
  proof (cases "areAllCoursesTaken (length cs) (takenOf bigToString vals)")
    case True
    with sz have "rem = []" by (simp add: areAllCoursesTaken_def map_size_def)
    with less.prems True show ?thesis
      by (subst majorPlanLoop.simps) auto
  next
    case False
    with sz have ne: "rem \<noteq> []" by (auto simp: areAllCoursesTaken_def map_size_def)
    from exists_satisfiable [OF typed acyc refs nonempty sets ne]
    obtain c where c: "c \<in> set rem" "isPreReqSatisfied bigToString (prereqs c) (takenOf bigToString vals) = Inr True"
      by blast
    from typed sets have "list_all (\<lambda>c. hasTypePreReq (prereqs c)) rem"
      by (auto simp: wellTyped_def list_all_iff)
    then have "\<not> isl (filterCourses bigToString rem (takenOf bigToString vals))" by (rule filterCourses_typed)
    then obtain r m' where run: "filterCourses bigToString rem (takenOf bigToString vals) = Inr (r, m')"
      by (cases "filterCourses bigToString rem (takenOf bigToString vals)") auto
    from run c have shorter: "length r < length rem" by (rule filterCourses_progress)
    from less.prems(1) have "mset (map (getCourseUID bigToString) (vals @ rem)) = mset (map (getCourseUID bigToString) cs)"
      by (metis mset_append mset_map)
    with uids have d: "distinct (map (getCourseUID bigToString) (vals @ rem))"
      by (metis mset_eq_imp_distinct_iff)
    then have dr: "distinct (map (getCourseUID bigToString) rem)"
      and disj: "getCourseUID bigToString ` set rem \<inter> fst ` set (takenOf bigToString vals) = {}"
      by (auto simp: keys_takenOf)
    from filterCourses_taken [OF run dr disj] obtain tk where
      tk: "m' = takenOf bigToString vals @ takenOf bigToString tk" "mset tk + mset r = mset rem"
        "satisfiedInOrder bigToString (takenOf bigToString vals) tk" by blast
    have m': "m' = takenOf bigToString (vals @ tk)" using tk(1) by simp
    have "mset (vals @ tk) + mset r = mset vals + (mset tk + mset r)" by simp
    also have "\<dots> = mset cs" using tk(2) less.prems(1) by simp
    finally have "mset (vals @ tk) + mset r = mset cs" .
    moreover have "satisfiedInOrder bigToString [] (vals @ tk)"
      using less.prems(2) tk(3) by (simp add: satisfiedInOrder_append)
    ultimately obtain plan where
      "snd (majorPlanLoop bigToString (length cs) r (takenOf bigToString (vals @ tk)) True (Suc k)) = Inr (takenOf bigToString plan, True)"
      "mset plan = mset cs" "satisfiedInOrder bigToString [] plan"
      using less.hyps [OF shorter] by blast
    with False run shorter m' show ?thesis
      by (subst majorPlanLoop.simps) auto
  qed
qed

lemma allOnly_edge_earlier:
  assumes uids: "distinct (map (getCourseUID bigToString) plan)"
    and sat: "isPreReqSatisfied bigToString (prereqs (plan ! i)) (takenOf bigToString (take i plan)) = Inr True"
    and only: "allOnly (prereqs (plan ! i))"
    and i: "i < length plan" and j: "j < length plan"
    and edge: "getCourseUID bigToString (plan ! j) \<in> set (leafRefs bigToString (prereqs (plan ! i)))"
  shows "j < i"
proof -
  from allOnly_satisfied_refs(1) [OF only sat] edge
  have "map_has (getCourseUID bigToString (plan ! j)) (takenOf bigToString (take i plan))" by blast
  then obtain c where c: "c \<in> set (take i plan)" "getCourseUID bigToString c = getCourseUID bigToString (plan ! j)"
    by auto
  then obtain k where k: "k < i" "k < length plan" "plan ! k = c"
    using i by (auto simp: in_set_conv_nth)
  with c(2) have "map (getCourseUID bigToString) plan ! k = map (getCourseUID bigToString) plan ! j" using j by simp
  with uids k(2) j have "k = j"
    using nth_eq_iff_index_eq [of "map (getCourseUID bigToString) plan" k j] by simp
  with k(1) show ?thesis by simp
qed

lemma allOnly_reach_earlier:
  assumes uids: "distinct (map (getCourseUID bigToString) plan)"
    and sat: "\<forall>i<length plan. isPreReqSatisfied bigToString (prereqs (plan ! i)) (takenOf bigToString (take i plan)) = Inr True"
    and only: "list_all (\<lambda>c. allOnly (prereqs c)) plan"
    and same: "set plan = set cs"
    and reach: "(c, d) \<in> (dependsOn bigToString cs)\<^sup>+"
  shows "\<forall>i<length plan. \<forall>j<length plan. plan ! i = c \<and> plan ! j = d \<longrightarrow> j < i"
  using reach
proof (induction rule: trancl_induct)
  case (base y)
  show ?case
  proof (intro allI impI)
    fix i j assume ij: "i < length plan" "j < length plan" "plan ! i = c \<and> plan ! j = y"
    from base ij(3) have e: "getCourseUID bigToString (plan ! j) \<in> set (leafRefs bigToString (prereqs (plan ! i)))"
      by (simp add: dependsOn_def)
    from only ij(1) have o: "allOnly (prereqs (plan ! i))" by (simp add: list_all_length)
    from sat ij(1)
    have s: "isPreReqSatisfied bigToString (prereqs (plan ! i)) (takenOf bigToString (take i plan)) = Inr True" by simp
    show "j < i" using uids s o ij(1) ij(2) e by (rule allOnly_edge_earlier)
  qed
next
  case (step y z)
  show ?case
  proof (intro allI impI)
    fix i j assume ij: "i < length plan" "j < length plan" "plan ! i = c \<and> plan ! j = z"
    from step(2) same have "y \<in> set plan" by (simp add: dependsOn_def)
    then obtain k where k: "k < length plan" "plan ! k = y" by (auto simp: in_set_conv_nth)
    with step.IH ij have ki: "k < i" by blast
    from step(2) ij(3) k(2) have e: "getCourseUID bigToString (plan ! j) \<in> set (leafRefs bigToString (prereqs (plan ! k)))"
      by (simp add: dependsOn_def)
    from only k(1) have o: "allOnly (prereqs (plan ! k))" by (simp add: list_all_length)
    from sat k(1)
    have s: "isPreReqSatisfied bigToString (prereqs (plan ! k)) (takenOf bigToString (take k plan)) = Inr True" by simp
    have "j < k" using uids s o k(1) ij(2) e by (rule allOnly_edge_earlier)
    with ki show "j < i" by simp
  qed
qed

section \<open>Malformed nodes\<close>

text \<open>
  Claim C3. A prerequisite object whose tag is neither \<open>and\<close> nor \<open>or\<close> and which is not a
  leaf (it does not carry both \<open>classId\<close> and \<open>subject\<close>) makes the evaluator throw
  the error "Unexpected prereq structure.": \<open>isPreReqSatisfied\<close> does so on the object
  itself, and so does \<open>isPrereqValueTaken\<close>, through which the object is reached as a
  child. No boolean is returned.
\<close>

theorem isPreReqSatisfied_malformed:
  assumes "type_field v \<noteq> Some AND" and "type_field v \<noteq> Some OR" and "\<not> isCourseInfo v"
  shows "isPreReqSatisfied bigToString v m = Inl UnexpectedPrereqStructure
       \<and> isPrereqValueTaken bigToString v m = Inl UnexpectedPrereqStructure"
  using assms by (cases v) simp

theorem isPreReqSatisfied_malformed_witness:
  "type_field (Obj None (Some ''CS'') (Some ''xor'') (Some [])) \<noteq> Some AND
   \<and> type_field (Obj None (Some ''CS'') (Some ''xor'') (Some [])) \<noteq> Some OR
   \<and> \<not> isCourseInfo (Obj None (Some ''CS'') (Some ''xor'') (Some []))
   \<and> isPreReqSatisfied noBigNumbers (Obj None (Some ''CS'') (Some ''xor'') (Some [])) [] = Inl UnexpectedPrereqStructure
   \<and> isPrereqValueTaken noBigNumbers (Obj None (Some ''CS'') (Some ''xor'') (Some [])) [] = Inl UnexpectedPrereqStructure"
  using isPreReqSatisfied_malformed
    [where v = "Obj None (Some ''CS'') (Some ''xor'') (Some [])" and m = "[]"
       and bigToString = noBigNumbers]
  by (simp add: AND_def OR_def isCourseInfo_def)

section \<open>Empty nodes\<close>

text \<open>
  Claim C4. Against every taken-courses map an \<open>or\<close> node with an empty list of values
  evaluates to \<open>false\<close>, and \<open>determineMajorPlan\<close> on a single course with such a
  prerequisite returns \<^verbatim>\<open>null\<close>.
\<close>

theorem empty_any_unsatisfied:
  "isPreReqSatisfied bigToString (Obj ci su (Some OR) (Some [])) m = Inr False
   \<and> determineMajorPlan bigToString [\<lparr>classId = i, subject = s, prereqs = Obj ci su (Some OR) (Some [])\<rparr>] = Inr None"
  by (simp add: determineMajorPlan_def majorPlanLoop.simps areAllCoursesTaken_def map_size_def AND_def OR_def)

text \<open>
  Claim C5. Against every taken-courses map an \<open>and\<close> node with an empty list of values
  evaluates to \<open>true\<close>; on a single course with such a prerequisite the first scan takes
  the course, the loop runs one round, and \<open>determineMajorPlan\<close> returns the one-element
  plan.
\<close>

theorem empty_all_satisfied:
  "isPreReqSatisfied bigToString (Obj ci su (Some AND) (Some [])) m = Inr True
   \<and> filterCourses bigToString [\<lparr>classId = i, subject = s, prereqs = Obj ci su (Some AND) (Some [])\<rparr>] []
       = Inr ([], [(getCourseUID bigToString \<lparr>classId = i, subject = s, prereqs = Obj ci su (Some AND) (Some [])\<rparr>,
                    \<lparr>classId = i, subject = s, prereqs = Obj ci su (Some AND) (Some [])\<rparr>)])
   \<and> roundsExecuted bigToString [\<lparr>classId = i, subject = s, prereqs = Obj ci su (Some AND) (Some [])\<rparr>] = 1
   \<and> determineMajorPlan bigToString [\<lparr>classId = i, subject = s, prereqs = Obj ci su (Some AND) (Some [])\<rparr>]
       = Inr (Some [\<lparr>classId = i, subject = s, prereqs = Obj ci su (Some AND) (Some [])\<rparr>])"
  by (simp add: determineMajorPlan_def roundsExecuted_def majorPlanLoop.simps areAllCoursesTaken_def map_size_def map_values_def)

section \<open>Scan order within a round\<close>

text \<open>
  Claim C6. On the input \<open>[{CS1, and({CS2, CS3})}, {CS2, and()}, {CS3, or({CS2})}]\<close> the
  first scan keeps CS1, takes CS2 and then takes CS3, whose prerequisite is satisfied only
  by the CS2 taken earlier in the same scan; the plan returned is \<open>[CS2, CS3, CS1]\<close>.
\<close>

theorem same_round_visibility:
  "filterCourses bigToString
     [\<lparr>classId = 1, subject = ''CS'', prereqs = node AND [leaf ''CS'' 2, leaf ''CS'' 3]\<rparr>,
      \<lparr>classId = 2, subject = ''CS'', prereqs = node AND []\<rparr>,
      \<lparr>classId = 3, subject = ''CS'', prereqs = node OR [leaf ''CS'' 2]\<rparr>] []
   = Inr ([\<lparr>classId = 1, subject = ''CS'', prereqs = node AND [leaf ''CS'' 2, leaf ''CS'' 3]\<rparr>],
          [(''CS2'', \<lparr>classId = 2, subject = ''CS'', prereqs = node AND []\<rparr>),
           (''CS3'', \<lparr>classId = 3, subject = ''CS'', prereqs = node OR [leaf ''CS'' 2]\<rparr>)])
   \<and> determineMajorPlan bigToString
     [\<lparr>classId = 1, subject = ''CS'', prereqs = node AND [leaf ''CS'' 2, leaf ''CS'' 3]\<rparr>,
      \<lparr>classId = 2, subject = ''CS'', prereqs = node AND []\<rparr>,
      \<lparr>classId = 3, subject = ''CS'', prereqs = node OR [leaf ''CS'' 2]\<rparr>]
   = Inr (Some
     [\<lparr>classId = 2, subject = ''CS'', prereqs = node AND []\<rparr>,
      \<lparr>classId = 3, subject = ''CS'', prereqs = node OR [leaf ''CS'' 2]\<rparr>,
      \<lparr>classId = 1, subject = ''CS'', prereqs = node AND [leaf ''CS'' 2, leaf ''CS'' 3]\<rparr>])"
  by (simp add: determineMajorPlan_def majorPlanLoop.simps areAllCoursesTaken_def map_size_def
      map_values_def natToString.simps eval_defs)

section \<open>Course identifiers are not injective\<close>

text \<open>
  Claim C7 says that two courses have the same identifier exactly when they have the same
  subject and the same class identifier. The identifier is the subject followed by the
  decimal numeral with nothing in between, so subject \<open>CS1\<close> with class 23 and subject
  \<open>CS12\<close> with class 3 both get \<open>CS123\<close>.
\<close>

theorem getCourseUID_collision:
  "getCourseUID bigToString \<lparr>classId = 23, subject = ''CS1''\<rparr> = getCourseUID bigToString \<lparr>classId = 3, subject = ''CS12''\<rparr>
   \<and> getCourseUID bigToString \<lparr>classId = 23, subject = ''CS1''\<rparr> = ''CS123''
   \<and> subject \<lparr>classId = 23, subject = ''CS1''\<rparr> \<noteq> subject \<lparr>classId = 3, subject = ''CS12''\<rparr>
   \<and> classId \<lparr>classId = 23, subject = ''CS1''\<rparr> \<noteq> classId \<lparr>classId = 3, subject = ''CS12''\<rparr>"
  by (simp add: getCourseUID_def numberToString_def MAX_SAFE_INTEGER_def natToString.simps
      digitChar_def)

text \<open>
  Beyond the safe range the identifier is whatever the language prints. If it prints
  \<^verbatim>\<open>1e+21\<close> for \<open>10^21\<close>, subject \<open>CS\<close> with class \<open>10^21\<close> and subject \<open>CS1e+\<close> with
  class 21 share the identifier \<open>CS1e+21\<close>, and the two courses, neither with a
  prerequisite, get no plan.
\<close>

lemma exponent_form_collision:
  assumes "bigToString 1000000000000000000000 = ''1e+21''"
  shows "getCourseUID bigToString \<lparr>classId = 1000000000000000000000, subject = ''CS''\<rparr>
           = getCourseUID bigToString \<lparr>classId = 21, subject = ''CS1e+''\<rparr>
       \<and> determineMajorPlan bigToString
            [\<lparr>classId = 1000000000000000000000, subject = ''CS'', prereqs = node AND []\<rparr>,
             \<lparr>classId = 21, subject = ''CS1e+'', prereqs = node AND []\<rparr>] = Inr None"
  using assms
  by (simp add: determineMajorPlan_def majorPlanLoop.simps areAllCoursesTaken_def map_size_def
      map_values_def natToString.simps eval_defs)

section \<open>A cycle of two courses\<close>

text \<open>
  Claim C2, as stated: the prerequisite of each of the two courses is a leaf that
  references the other. \<open>determineMajorPlan\<close> passes \<open>course.prereqs\<close> to
  \<open>isPreReqSatisfied\<close>, which reads its \<open>type\<close> field; a leaf has none, so the
  evaluator throws and no value is returned.
\<close>

theorem bare_leaf_cycle_throws:
  "determineMajorPlan noBigNumbers
     [\<lparr>classId = 1, subject = ''CS'', prereqs = leaf ''CS'' 2\<rparr>,
      \<lparr>classId = 2, subject = ''CS'', prereqs = leaf ''CS'' 1\<rparr>] = Inl UnexpectedPrereqStructure"
  by (simp add: determineMajorPlan_def majorPlanLoop.simps areAllCoursesTaken_def map_size_def
      map_values_def natToString.simps eval_defs)

text \<open>
  Claim C2, amended: when the prerequisite of each of the two courses is an \<open>and\<close> or
  \<open>or\<close> node whose only value is a leaf referencing the other course,
  \<open>determineMajorPlan\<close> returns \<^verbatim>\<open>null\<close> as an ordinary value; when the two
  prerequisites are bare leaves it throws "Unexpected prereq structure.".
\<close>

theorem two_cycle_no_solution:
  assumes "tA = AND \<or> tA = OR" and "tB = AND \<or> tB = OR"
  shows "determineMajorPlan bigToString
     [\<lparr>classId = iA, subject = sA, prereqs = node tA [leaf sB iB]\<rparr>,
      \<lparr>classId = iB, subject = sB, prereqs = node tB [leaf sA iA]\<rparr>] = Inr None
   \<and> determineMajorPlan bigToString
     [\<lparr>classId = iA, subject = sA, prereqs = leaf sB iB\<rparr>,
      \<lparr>classId = iB, subject = sB, prereqs = leaf sA iA\<rparr>] = Inl UnexpectedPrereqStructure"
  using assms
  by (auto simp add: determineMajorPlan_def majorPlanLoop.simps areAllCoursesTaken_def map_size_def
      map_values_def node_def leaf_def isCourseInfo_def isCourseTaken_def map_has_def AND_def OR_def)

theorem two_cycle_no_solution_witness:
  "(OR = AND \<or> OR = OR) \<and> (AND = AND \<or> AND = OR) \<and> determineMajorPlan noBigNumbers
     [\<lparr>classId = 1, subject = ''CS'', prereqs = node OR [leaf ''CS'' 2]\<rparr>,
      \<lparr>classId = 2, subject = ''CS'', prereqs = node AND [leaf ''CS'' 1]\<rparr>] = Inr None"
  using two_cycle_no_solution
    [where tA = OR and tB = AND and iA = 1 and sA = "''CS''" and sB = "''CS''" and iB = 2
       and bigToString = noBigNumbers]
  by simp

section \<open>The number of rounds\<close>

text \<open>
  Claim C8, as stated: the loop executes at most as many rounds as there are courses.
  With two entries that share an identifier the bound is exceeded: the first entry
  (CS1, requiring CS1) is kept in round 1 while the second (CS1, no prerequisite) is
  taken; round 2 takes the first entry, overwriting the map entry, so the map still has
  one key; round 3 scans the empty list, makes no progress and ends the loop. Three rounds
  for two courses.
\<close>

theorem rounds_exceed_length:
  "roundsExecuted noBigNumbers
     [\<lparr>classId = 1, subject = ''CS'', prereqs = node AND [leaf ''CS'' 1]\<rparr>,
      \<lparr>classId = 1, subject = ''CS'', prereqs = node AND []\<rparr>] = 3
   \<and> length
     [\<lparr>classId = 1, subject = ''CS'', prereqs = node AND [leaf ''CS'' 1]\<rparr>,
      \<lparr>classId = 1, subject = ''CS'', prereqs = node AND []\<rparr>] = 2"
  by (simp add: roundsExecuted_def majorPlanLoop.simps areAllCoursesTaken_def map_size_def
      natToString.simps eval_defs)

text \<open>
  Claim C8, amended: the loop terminates on every input (\<open>majorPlanLoop\<close> is a total
  function) after at most \<open>|courses| + 1\<close> rounds, and after at most \<open>|courses|\<close>
  rounds when the course identifiers of the input are pairwise distinct; a round whose
  scan returns either removes at least one course from the remaining list or is the last
  round, leaving \<open>solutionIsPossible\<close> false.
\<close>

theorem rounds_bounded:
  "roundsExecuted bigToString courses \<le> length courses + 1
   \<and> (distinct (map (getCourseUID bigToString) courses) \<longrightarrow> roundsExecuted bigToString courses \<le> length courses)
   \<and> (\<forall>n remaining m k r m'.
        \<not> areAllCoursesTaken n m \<longrightarrow> filterCourses bigToString remaining m = Inr (r, m') \<longrightarrow>
        length r < length remaining \<or> majorPlanLoop bigToString n remaining m True k = (Suc k, Inr (m', False)))"
proof (intro conjI impI allI)
  show "roundsExecuted bigToString courses \<le> length courses + 1"
    using rounds_general [of bigToString "length courses" courses "[]" True 0]
    by (simp add: roundsExecuted_def)
next
  assume "distinct (map (getCourseUID bigToString) courses)"
  then show "roundsExecuted bigToString courses \<le> length courses"
    using rounds_distinct [of bigToString courses "[]" "length courses" 0]
    by (simp add: roundsExecuted_def)
next
  fix n remaining m k r m'
  assume "\<not> areAllCoursesTaken n m" and "filterCourses bigToString remaining m = Inr (r, m')"
  then show "length r < length remaining
     \<or> majorPlanLoop bigToString n remaining m True k = (Suc k, Inr (m', False))"
    by (rule round_progress_or_last)
qed

theorem rounds_bounded_witness:
  "distinct (map (getCourseUID noBigNumbers)
     [\<lparr>classId = 1, subject = ''CS'', prereqs = node AND [leaf ''CS'' 2]\<rparr>,
      \<lparr>classId = 2, subject = ''CS'', prereqs = node AND []\<rparr>])
   \<and> roundsExecuted noBigNumbers
     [\<lparr>classId = 1, subject = ''CS'', prereqs = node AND [leaf ''CS'' 2]\<rparr>,
      \<lparr>classId = 2, subject = ''CS'', prereqs = node AND []\<rparr>] \<le> 2
   \<and> roundsExecuted noBigNumbers
     [\<lparr>classId = 1, subject = ''CS'', prereqs = node AND [leaf ''CS'' 2]\<rparr>,
      \<lparr>classId = 2, subject = ''CS'', prereqs = node AND []\<rparr>] = 2"
  using rounds_bounded [of noBigNumbers
     "[\<lparr>classId = 1, subject = ''CS'', prereqs = node AND [leaf ''CS'' 2]\<rparr>,
      \<lparr>classId = 2, subject = ''CS'', prereqs = node AND []\<rparr>]"]
  by (simp add: roundsExecuted_def majorPlanLoop.simps areAllCoursesTaken_def map_size_def
      natToString.simps eval_defs)

section \<open>Duplicate identifiers\<close>

text \<open>
  Claim C9. When two entries of the input share a course identifier, as the code computes
  it, the map never reaches the size of the input, so \<open>determineMajorPlan\<close> never returns
  a plan. On an input of the declared type \<^verbatim>\<open>Course[]\<close> (every node is tagged \<open>and\<close>
  or \<open>or\<close> and has an array of values, so that the evaluator does not throw) it returns
  \<^verbatim>\<open>null\<close>, whatever the prerequisites are; on any other input it returns
  \<^verbatim>\<open>null\<close> or throws.
\<close>

theorem duplicates_no_plan:
  assumes dup: "\<not> distinct (map (getCourseUID bigToString) courses)"
  shows "(\<forall>plan. determineMajorPlan bigToString courses \<noteq> Inr (Some plan))
       \<and> (wellTyped courses \<longrightarrow> determineMajorPlan bigToString courses = Inr None)"
proof -
  let ?K = "getCourseUID bigToString ` set courses"
  let ?run = "snd (majorPlanLoop bigToString (length courses) courses [] True 0)"
  have "card ?K \<le> length courses" using card_length [of "map (getCourseUID bigToString) courses"] by simp
  moreover have "card ?K \<noteq> length courses"
    using dup card_distinct [of "map (getCourseUID bigToString) courses"] by auto
  ultimately have small: "card ?K < length courses" by simp
  have never: "?run \<noteq> Inr (mf, True)" for mf
    using small by (rule loop_duplicates) simp_all
  have first: "determineMajorPlan bigToString courses \<noteq> Inr (Some plan)" for plan
  proof (cases ?run)
    case (Inl e)
    then show ?thesis by (simp add: determineMajorPlan_def)
  next
    case (Inr x)
    obtain mf p where x: "x = (mf, p)" by (cases x)
    with Inr never [of mf] have "\<not> p" by auto
    with Inr x show ?thesis by (simp add: determineMajorPlan_def)
  qed
  have second: "determineMajorPlan bigToString courses = Inr None" if "wellTyped courses"
  proof -
    from that have "\<not> isl ?run" unfolding wellTyped_def by (rule loop_typed)
    then obtain mf p where res: "?run = Inr (mf, p)" by (cases ?run) auto
    with never [of mf] have "\<not> p" by auto
    with res show ?thesis by (simp add: determineMajorPlan_def)
  qed
  from first second show ?thesis by blast
qed

theorem duplicates_no_plan_witness:
  "\<not> distinct (map (getCourseUID noBigNumbers)
     [\<lparr>classId = 1, subject = ''CS'', prereqs = node AND []\<rparr>,
      \<lparr>classId = 1, subject = ''CS'', prereqs = node AND []\<rparr>])
   \<and> wellTyped
     [\<lparr>classId = 1, subject = ''CS'', prereqs = node AND []\<rparr>,
      \<lparr>classId = 1, subject = ''CS'', prereqs = node AND []\<rparr>]
   \<and> determineMajorPlan noBigNumbers
     [\<lparr>classId = 1, subject = ''CS'', prereqs = node AND []\<rparr>,
      \<lparr>classId = 1, subject = ''CS'', prereqs = node AND []\<rparr>] = Inr None"
  using duplicates_no_plan [of noBigNumbers
     "[\<lparr>classId = 1, subject = ''CS'', prereqs = node AND []\<rparr>,
      \<lparr>classId = 1, subject = ''CS'', prereqs = node AND []\<rparr>]"]
  by (simp add: wellTyped_def node_def)

section \<open>Monotonicity of the evaluator\<close>

text \<open>
  Claim C10. For an expression on which evaluation throws for no map, and maps \<open>S\<close>
  and \<open>T\<close> such that every key of \<open>S\<close> is a key of \<open>T\<close>: if the expression is
  satisfied against \<open>S\<close> it is satisfied against \<open>T\<close>. In particular it is satisfied
  against the map any scan started from \<open>S\<close> ends with, so a course that has become
  satisfiable stays so as the rounds grow the map.
\<close>

theorem isPreReqSatisfied_monotone:
  assumes total: "\<forall>m err. isPreReqSatisfied bigToString e m \<noteq> Inl err"
    and sub: "fst ` set S \<subseteq> fst ` set T"
    and sat: "isPreReqSatisfied bigToString e S = Inr True"
  shows "isPreReqSatisfied bigToString e T = Inr True
       \<and> (\<forall>courses remaining S'. filterCourses bigToString courses S = Inr (remaining, S')
            \<longrightarrow> isPreReqSatisfied bigToString e S' = Inr True)"
proof -
  have grow: "isPreReqSatisfied bigToString e M = Inr True" if "\<forall>k. map_has k S \<longrightarrow> map_has k M" for M
  proof -
    from that sat have "isPreReqSatisfied bigToString e M \<noteq> Inr False" by (rule grows_aux(1))
    with total show ?thesis by (cases "isPreReqSatisfied bigToString e M") auto
  qed
  have "isPreReqSatisfied bigToString e T = Inr True"
    using sub by (intro grow) (auto simp: map_has_def)
  moreover have "isPreReqSatisfied bigToString e S' = Inr True"
    if "filterCourses bigToString courses S = Inr (remaining, S')" for courses remaining S'
    using that by (intro grow) (auto intro: filterCourses_grows)
  ultimately show ?thesis by blast
qed

theorem isPreReqSatisfied_monotone_witness:
  "fst ` set [(''CS2'', \<lparr>classId = 2, subject = ''CS'', prereqs = node AND []\<rparr>)]
     \<subseteq> fst ` set [(''CS1'', \<lparr>classId = 1, subject = ''CS'', prereqs = node AND []\<rparr>),
                  (''CS2'', \<lparr>classId = 2, subject = ''CS'', prereqs = node AND []\<rparr>)]
   \<and> isPreReqSatisfied noBigNumbers (node OR [leaf ''CS'' 1, leaf ''CS'' 2])
       [(''CS2'', \<lparr>classId = 2, subject = ''CS'', prereqs = node AND []\<rparr>)] = Inr True
   \<and> isPreReqSatisfied noBigNumbers (node OR [leaf ''CS'' 1, leaf ''CS'' 2])
       [(''CS1'', \<lparr>classId = 1, subject = ''CS'', prereqs = node AND []\<rparr>),
        (''CS2'', \<lparr>classId = 2, subject = ''CS'', prereqs = node AND []\<rparr>)] = Inr True"
proof -
  have "hasTypePreReq (node OR [leaf ''CS'' 1, leaf ''CS'' 2])"
    by (simp add: node_def leaf_def isCourseInfo_def)
  then have "\<forall>m err. isPreReqSatisfied noBigNumbers (node OR [leaf ''CS'' 1, leaf ''CS'' 2]) m \<noteq> Inl err"
    using typed_total(1) [of "node OR [leaf ''CS'' 1, leaf ''CS'' 2]"] by (auto simp: isl_def)
  moreover have s: "isPreReqSatisfied noBigNumbers (node OR [leaf ''CS'' 1, leaf ''CS'' 2])
       [(''CS2'', \<lparr>classId = 2, subject = ''CS'', prereqs = node AND []\<rparr>)] = Inr True"
    by (simp add: natToString.simps eval_defs)
  moreover have k: "fst ` set [(''CS2'', \<lparr>classId = 2, subject = ''CS'', prereqs = node AND []\<rparr>)]
     \<subseteq> fst ` set [(''CS1'', \<lparr>classId = 1, subject = ''CS'', prereqs = node AND []\<rparr>),
                  (''CS2'', \<lparr>classId = 2, subject = ''CS'', prereqs = node AND []\<rparr>)]"
    by simp
  ultimately show ?thesis
    using isPreReqSatisfied_monotone [of noBigNumbers "node OR [leaf ''CS'' 1, leaf ''CS'' 2]"
      "[(''CS2'', \<lparr>classId = 2, subject = ''CS'', prereqs = node AND []\<rparr>)]"
      "[(''CS1'', \<lparr>classId = 1, subject = ''CS'', prereqs = node AND []\<rparr>),
        (''CS2'', \<lparr>classId = 2, subject = ''CS'', prereqs = node AND []\<rparr>)]"]
    by blast
qed

section \<open>The plan\<close>

text \<open>
  Claim C1, as stated: on every course list with an acyclic dependency graph and all leaf
  references naming courses of the list, \<open>determineMajorPlan\<close> returns a plan holding
  every input course once, each course after every course it transitively
  leaf-references. Three inputs meet the two conditions and break the conclusion:
  the same course listed twice (the result is \<^verbatim>\<open>null\<close>); a single course whose
  prerequisite is an empty \<open>or\<close> node (the result is \<^verbatim>\<open>null\<close>); and CS2, CS1, CS3
  in this order where CS1 requires \<open>or({CS2, CS3})\<close>: the plan is CS2, CS1, CS3, in
  which CS3, leaf-referenced by CS1, comes after CS1.
\<close>

theorem plan_claim_fails:
  "acyclic (dependsOn noBigNumbers
     [\<lparr>classId = 1, subject = ''CS'', prereqs = node AND []\<rparr>,
      \<lparr>classId = 1, subject = ''CS'', prereqs = node AND []\<rparr>])
   \<and> refsResolvable noBigNumbers
     [\<lparr>classId = 1, subject = ''CS'', prereqs = node AND []\<rparr>,
      \<lparr>classId = 1, subject = ''CS'', prereqs = node AND []\<rparr>]
   \<and> determineMajorPlan noBigNumbers
     [\<lparr>classId = 1, subject = ''CS'', prereqs = node AND []\<rparr>,
      \<lparr>classId = 1, subject = ''CS'', prereqs = node AND []\<rparr>] = Inr None
   \<and> acyclic (dependsOn noBigNumbers
     [\<lparr>classId = 1, subject = ''CS'', prereqs = node OR []\<rparr>])
   \<and> refsResolvable noBigNumbers
     [\<lparr>classId = 1, subject = ''CS'', prereqs = node OR []\<rparr>]
   \<and> determineMajorPlan noBigNumbers
     [\<lparr>classId = 1, subject = ''CS'', prereqs = node OR []\<rparr>] = Inr None
   \<and> acyclic (dependsOn noBigNumbers
     [\<lparr>classId = 2, subject = ''CS'', prereqs = node AND []\<rparr>,
      \<lparr>classId = 1, subject = ''CS'', prereqs = node OR [leaf ''CS'' 2, leaf ''CS'' 3]\<rparr>,
      \<lparr>classId = 3, subject = ''CS'', prereqs = node AND []\<rparr>])
   \<and> refsResolvable noBigNumbers
     [\<lparr>classId = 2, subject = ''CS'', prereqs = node AND []\<rparr>,
      \<lparr>classId = 1, subject = ''CS'', prereqs = node OR [leaf ''CS'' 2, leaf ''CS'' 3]\<rparr>,
      \<lparr>classId = 3, subject = ''CS'', prereqs = node AND []\<rparr>]
   \<and> determineMajorPlan noBigNumbers
     [\<lparr>classId = 2, subject = ''CS'', prereqs = node AND []\<rparr>,
      \<lparr>classId = 1, subject = ''CS'', prereqs = node OR [leaf ''CS'' 2, leaf ''CS'' 3]\<rparr>,
      \<lparr>classId = 3, subject = ''CS'', prereqs = node AND []\<rparr>]
     = Inr (Some
     [\<lparr>classId = 2, subject = ''CS'', prereqs = node AND []\<rparr>,
      \<lparr>classId = 1, subject = ''CS'', prereqs = node OR [leaf ''CS'' 2, leaf ''CS'' 3]\<rparr>,
      \<lparr>classId = 3, subject = ''CS'', prereqs = node AND []\<rparr>])
   \<and> (\<lparr>classId = 1, subject = ''CS'', prereqs = node OR [leaf ''CS'' 2, leaf ''CS'' 3]\<rparr>,
      \<lparr>classId = 3, subject = ''CS'', prereqs = node AND []\<rparr>)
     \<in> dependsOn noBigNumbers
     [\<lparr>classId = 2, subject = ''CS'', prereqs = node AND []\<rparr>,
      \<lparr>classId = 1, subject = ''CS'', prereqs = node OR [leaf ''CS'' 2, leaf ''CS'' 3]\<rparr>,
      \<lparr>classId = 3, subject = ''CS'', prereqs = node AND []\<rparr>]"
proof -
  have "dependsOn noBigNumbers
     [\<lparr>classId = 1, subject = ''CS'', prereqs = node AND []\<rparr>,
      \<lparr>classId = 1, subject = ''CS'', prereqs = node AND []\<rparr>] = {}"
    by (auto simp: dependsOn_def node_def)
  then have a1: "acyclic (dependsOn noBigNumbers
     [\<lparr>classId = 1, subject = ''CS'', prereqs = node AND []\<rparr>,
      \<lparr>classId = 1, subject = ''CS'', prereqs = node AND []\<rparr>])"
    by (simp add: acyclic_def)
  have "dependsOn noBigNumbers
     [\<lparr>classId = 1, subject = ''CS'', prereqs = node OR []\<rparr>] = {}"
    by (auto simp: dependsOn_def node_def)
  then have b1: "acyclic (dependsOn noBigNumbers
     [\<lparr>classId = 1, subject = ''CS'', prereqs = node OR []\<rparr>])"
    by (simp add: acyclic_def)
  have c1: "acyclic (dependsOn noBigNumbers
     [\<lparr>classId = 2, subject = ''CS'', prereqs = node AND []\<rparr>,
      \<lparr>classId = 1, subject = ''CS'', prereqs = node OR [leaf ''CS'' 2, leaf ''CS'' 3]\<rparr>,
      \<lparr>classId = 3, subject = ''CS'', prereqs = node AND []\<rparr>])"
  proof (rule acyclicI_order [where f = "\<lambda>c. if classId c = 1 then 1 else (0::nat)"])
    fix a b
    assume "(a, b) \<in> dependsOn noBigNumbers
     [\<lparr>classId = 2, subject = ''CS'', prereqs = node AND []\<rparr>,
      \<lparr>classId = 1, subject = ''CS'', prereqs = node OR [leaf ''CS'' 2, leaf ''CS'' 3]\<rparr>,
      \<lparr>classId = 3, subject = ''CS'', prereqs = node AND []\<rparr>]"
    then show "(if classId b = 1 then 1 else (0::nat)) < (if classId a = 1 then 1 else 0)"
      by (auto simp: dependsOn_def natToString.simps eval_defs)
  qed
  have a2: "refsResolvable noBigNumbers
     [\<lparr>classId = 1, subject = ''CS'', prereqs = node AND []\<rparr>,
      \<lparr>classId = 1, subject = ''CS'', prereqs = node AND []\<rparr>]"
    by (simp add: refsResolvable_def node_def)
  have b2: "refsResolvable noBigNumbers
     [\<lparr>classId = 1, subject = ''CS'', prereqs = node OR []\<rparr>]"
    by (simp add: refsResolvable_def node_def)
  have c2: "refsResolvable noBigNumbers
     [\<lparr>classId = 2, subject = ''CS'', prereqs = node AND []\<rparr>,
      \<lparr>classId = 1, subject = ''CS'', prereqs = node OR [leaf ''CS'' 2, leaf ''CS'' 3]\<rparr>,
      \<lparr>classId = 3, subject = ''CS'', prereqs = node AND []\<rparr>]"
    by (simp add: refsResolvable_def natToString.simps eval_defs)
  have a3: "determineMajorPlan noBigNumbers
     [\<lparr>classId = 1, subject = ''CS'', prereqs = node AND []\<rparr>,
      \<lparr>classId = 1, subject = ''CS'', prereqs = node AND []\<rparr>] = Inr None"
    by (simp add: determineMajorPlan_def majorPlanLoop.simps areAllCoursesTaken_def map_size_def
        map_values_def natToString.simps eval_defs)
  have b3: "determineMajorPlan noBigNumbers
     [\<lparr>classId = 1, subject = ''CS'', prereqs = node OR []\<rparr>] = Inr None"
    by (simp add: determineMajorPlan_def majorPlanLoop.simps areAllCoursesTaken_def map_size_def
        map_values_def natToString.simps eval_defs)
  have c3: "determineMajorPlan noBigNumbers
     [\<lparr>classId = 2, subject = ''CS'', prereqs = node AND []\<rparr>,
      \<lparr>classId = 1, subject = ''CS'', prereqs = node OR [leaf ''CS'' 2, leaf ''CS'' 3]\<rparr>,
      \<lparr>classId = 3, subject = ''CS'', prereqs = node AND []\<rparr>]
     = Inr (Some
     [\<lparr>classId = 2, subject = ''CS'', prereqs = node AND []\<rparr>,
      \<lparr>classId = 1, subject = ''CS'', prereqs = node OR [leaf ''CS'' 2, leaf ''CS'' 3]\<rparr>,
      \<lparr>classId = 3, subject = ''CS'', prereqs = node AND []\<rparr>])"
    by (simp add: determineMajorPlan_def majorPlanLoop.simps areAllCoursesTaken_def map_size_def
        map_values_def natToString.simps eval_defs)
  have c4: "(\<lparr>classId = 1, subject = ''CS'', prereqs = node OR [leaf ''CS'' 2, leaf ''CS'' 3]\<rparr>,
      \<lparr>classId = 3, subject = ''CS'', prereqs = node AND []\<rparr>)
     \<in> dependsOn noBigNumbers
     [\<lparr>classId = 2, subject = ''CS'', prereqs = node AND []\<rparr>,
      \<lparr>classId = 1, subject = ''CS'', prereqs = node OR [leaf ''CS'' 2, leaf ''CS'' 3]\<rparr>,
      \<lparr>classId = 3, subject = ''CS'', prereqs = node AND []\<rparr>]"
    by (simp add: dependsOn_def natToString.simps eval_defs)
  from a1 b1 c1 a2 b2 c2 a3 b3 c3 c4 show ?thesis by simp
qed

text \<open>
  Claim C1, amended: on every course list of the declared type whose course identifiers
  are pairwise distinct, whose dependency graph is acyclic, all of whose leaf references
  name courses of the list, and none of whose \<open>or\<close> nodes is empty,
  \<open>determineMajorPlan\<close> returns a plan that holds every input course exactly once and
  in which the prerequisite expression of every course is satisfied against the courses
  at earlier positions; when in addition every node of every expression is an \<open>and\<close>
  node, every course a course transitively leaf-references is at an earlier position.
\<close>

theorem determineMajorPlan_plan:
  assumes typed: "wellTyped courses"
    and uids: "distinct (map (getCourseUID bigToString) courses)"
    and acyc: "acyclic (dependsOn bigToString courses)"
    and refs: "refsResolvable bigToString courses"
    and nonempty: "list_all (\<lambda>c. noEmptyAny (prereqs c)) courses"
  shows "\<exists>plan. determineMajorPlan bigToString courses = Inr (Some plan)
           \<and> mset plan = mset courses \<and> distinct plan
           \<and> (\<forall>i<length plan.
                 isPreReqSatisfied bigToString (prereqs (plan ! i)) (takenOf bigToString (take i plan)) = Inr True)
           \<and> (list_all (\<lambda>c. allOnly (prereqs c)) courses \<longrightarrow>
                (\<forall>i<length plan. \<forall>j<length plan.
                   (plan ! i, plan ! j) \<in> (dependsOn bigToString courses)\<^sup>+ \<longrightarrow> j < i))"
proof -
  have "mset [] + mset courses = mset courses" "satisfiedInOrder bigToString [] []" by simp_all
  from loop_succeeds [OF typed uids acyc refs nonempty this, of 0]
  obtain plan where run: "snd (majorPlanLoop bigToString (length courses) courses [] True 0) = Inr (takenOf bigToString plan, True)"
    and perm: "mset plan = mset courses" and ordered: "satisfiedInOrder bigToString [] plan"
    by (auto simp: takenOf_def)
  from run have res: "determineMajorPlan bigToString courses = Inr (Some plan)"
    by (simp add: determineMajorPlan_def)
  from perm have "mset (map (getCourseUID bigToString) plan) = mset (map (getCourseUID bigToString) courses)"
    by (metis mset_map)
  with uids have du: "distinct (map (getCourseUID bigToString) plan)" by (metis mset_eq_imp_distinct_iff)
  then have dp: "distinct plan" by (simp add: distinct_map)
  have sat: "\<forall>i<length plan. isPreReqSatisfied bigToString (prereqs (plan ! i)) (takenOf bigToString (take i plan)) = Inr True"
    using satisfiedInOrder_nth [OF ordered] by simp
  from perm have same: "set plan = set courses" by (metis set_mset_mset)
  have "\<forall>i<length plan. \<forall>j<length plan. (plan ! i, plan ! j) \<in> (dependsOn bigToString courses)\<^sup>+ \<longrightarrow> j < i"
    if only: "list_all (\<lambda>c. allOnly (prereqs c)) courses"
  proof (intro allI impI)
    fix i j assume ij: "i < length plan" "j < length plan"
      "(plan ! i, plan ! j) \<in> (dependsOn bigToString courses)\<^sup>+"
    from only same have "list_all (\<lambda>c. allOnly (prereqs c)) plan" by (simp add: list_all_iff)
    from allOnly_reach_earlier [OF du sat this same ij(3)] ij(1,2) show "j < i" by blast
  qed
  with res perm dp sat show ?thesis by blast
qed

theorem determineMajorPlan_plan_witness:
  "wellTyped
     [\<lparr>classId = 1, subject = ''CS'', prereqs = node AND [leaf ''CS'' 2, leaf ''CS'' 3]\<rparr>,
      \<lparr>classId = 2, subject = ''CS'', prereqs = node AND []\<rparr>,
      \<lparr>classId = 3, subject = ''CS'', prereqs = node AND [leaf ''CS'' 2]\<rparr>]
   \<and> distinct (map (getCourseUID noBigNumbers)
     [\<lparr>classId = 1, subject = ''CS'', prereqs = node AND [leaf ''CS'' 2, leaf ''CS'' 3]\<rparr>,
      \<lparr>classId = 2, subject = ''CS'', prereqs = node AND []\<rparr>,
      \<lparr>classId = 3, subject = ''CS'', prereqs = node AND [leaf ''CS'' 2]\<rparr>])
   \<and> acyclic (dependsOn noBigNumbers
     [\<lparr>classId = 1, subject = ''CS'', prereqs = node AND [leaf ''CS'' 2, leaf ''CS'' 3]\<rparr>,
      \<lparr>classId = 2, subject = ''CS'', prereqs = node AND []\<rparr>,
      \<lparr>classId = 3, subject = ''CS'', prereqs = node AND [leaf ''CS'' 2]\<rparr>])
   \<and> refsResolvable noBigNumbers
     [\<lparr>classId = 1, subject = ''CS'', prereqs = node AND [leaf ''CS'' 2, leaf ''CS'' 3]\<rparr>,
      \<lparr>classId = 2, subject = ''CS'', prereqs = node AND []\<rparr>,
      \<lparr>classId = 3, subject = ''CS'', prereqs = node AND [leaf ''CS'' 2]\<rparr>]
   \<and> list_all (\<lambda>c. noEmptyAny (prereqs c))
     [\<lparr>classId = 1, subject = ''CS'', prereqs = node AND [leaf ''CS'' 2, leaf ''CS'' 3]\<rparr>,
      \<lparr>classId = 2, subject = ''CS'', prereqs = node AND []\<rparr>,
      \<lparr>classId = 3, subject = ''CS'', prereqs = node AND [leaf ''CS'' 2]\<rparr>]
   \<and> list_all (\<lambda>c. allOnly (prereqs c))
     [\<lparr>classId = 1, subject = ''CS'', prereqs = node AND [leaf ''CS'' 2, leaf ''CS'' 3]\<rparr>,
      \<lparr>classId = 2, subject = ''CS'', prereqs = node AND []\<rparr>,
      \<lparr>classId = 3, subject = ''CS'', prereqs = node AND [leaf ''CS'' 2]\<rparr>]
   \<and> determineMajorPlan noBigNumbers
     [\<lparr>classId = 1, subject = ''CS'', prereqs = node AND [leaf ''CS'' 2, leaf ''CS'' 3]\<rparr>,
      \<lparr>classId = 2, subject = ''CS'', prereqs = node AND []\<rparr>,
      \<lparr>classId = 3, subject = ''CS'', prereqs = node AND [leaf ''CS'' 2]\<rparr>]
     = Inr (Some
     [\<lparr>classId = 2, subject = ''CS'', prereqs = node AND []\<rparr>,
      \<lparr>classId = 3, subject = ''CS'', prereqs = node AND [leaf ''CS'' 2]\<rparr>,
      \<lparr>classId = 1, subject = ''CS'', prereqs = node AND [leaf ''CS'' 2, leaf ''CS'' 3]\<rparr>])
   \<and> (\<exists>plan. determineMajorPlan noBigNumbers
     [\<lparr>classId = 1, subject = ''CS'', prereqs = node AND [leaf ''CS'' 2, leaf ''CS'' 3]\<rparr>,
      \<lparr>classId = 2, subject = ''CS'', prereqs = node AND []\<rparr>,
      \<lparr>classId = 3, subject = ''CS'', prereqs = node AND [leaf ''CS'' 2]\<rparr>] = Inr (Some plan)
     \<and> mset plan = mset
     [\<lparr>classId = 1, subject = ''CS'', prereqs = node AND [leaf ''CS'' 2, leaf ''CS'' 3]\<rparr>,
      \<lparr>classId = 2, subject = ''CS'', prereqs = node AND []\<rparr>,
      \<lparr>classId = 3, subject = ''CS'', prereqs = node AND [leaf ''CS'' 2]\<rparr>]
     \<and> distinct plan)"
proof -
  have h1: "wellTyped
     [\<lparr>classId = 1, subject = ''CS'', prereqs = node AND [leaf ''CS'' 2, leaf ''CS'' 3]\<rparr>,
      \<lparr>classId = 2, subject = ''CS'', prereqs = node AND []\<rparr>,
      \<lparr>classId = 3, subject = ''CS'', prereqs = node AND [leaf ''CS'' 2]\<rparr>]"
    by (simp add: wellTyped_def node_def leaf_def isCourseInfo_def)
  have h2: "distinct (map (getCourseUID noBigNumbers)
     [\<lparr>classId = 1, subject = ''CS'', prereqs = node AND [leaf ''CS'' 2, leaf ''CS'' 3]\<rparr>,
      \<lparr>classId = 2, subject = ''CS'', prereqs = node AND []\<rparr>,
      \<lparr>classId = 3, subject = ''CS'', prereqs = node AND [leaf ''CS'' 2]\<rparr>])"
    by (simp add: natToString.simps eval_defs)
  have h3: "acyclic (dependsOn noBigNumbers
     [\<lparr>classId = 1, subject = ''CS'', prereqs = node AND [leaf ''CS'' 2, leaf ''CS'' 3]\<rparr>,
      \<lparr>classId = 2, subject = ''CS'', prereqs = node AND []\<rparr>,
      \<lparr>classId = 3, subject = ''CS'', prereqs = node AND [leaf ''CS'' 2]\<rparr>])"
  proof (rule acyclicI_order [where f = "\<lambda>c. if classId c = 1 then 2 else if classId c = 3 then 1 else (0::nat)"])
    fix a b
    assume "(a, b) \<in> dependsOn noBigNumbers
     [\<lparr>classId = 1, subject = ''CS'', prereqs = node AND [leaf ''CS'' 2, leaf ''CS'' 3]\<rparr>,
      \<lparr>classId = 2, subject = ''CS'', prereqs = node AND []\<rparr>,
      \<lparr>classId = 3, subject = ''CS'', prereqs = node AND [leaf ''CS'' 2]\<rparr>]"
    then show "(if classId b = 1 then 2 else if classId b = 3 then 1 else (0::nat))
             < (if classId a = 1 then 2 else if classId a = 3 then 1 else 0)"
      by (auto simp: dependsOn_def natToString.simps eval_defs)
  qed
  have h4: "refsResolvable noBigNumbers
     [\<lparr>classId = 1, subject = ''CS'', prereqs = node AND [leaf ''CS'' 2, leaf ''CS'' 3]\<rparr>,
      \<lparr>classId = 2, subject = ''CS'', prereqs = node AND []\<rparr>,
      \<lparr>classId = 3, subject = ''CS'', prereqs = node AND [leaf ''CS'' 2]\<rparr>]"
    by (simp add: refsResolvable_def natToString.simps eval_defs)
  have h5: "list_all (\<lambda>c. noEmptyAny (prereqs c))
     [\<lparr>classId = 1, subject = ''CS'', prereqs = node AND [leaf ''CS'' 2, leaf ''CS'' 3]\<rparr>,
      \<lparr>classId = 2, subject = ''CS'', prereqs = node AND []\<rparr>,
      \<lparr>classId = 3, subject = ''CS'', prereqs = node AND [leaf ''CS'' 2]\<rparr>]"
    by (simp add: node_def leaf_def isCourseInfo_def)
  have h6: "list_all (\<lambda>c. allOnly (prereqs c))
     [\<lparr>classId = 1, subject = ''CS'', prereqs = node AND [leaf ''CS'' 2, leaf ''CS'' 3]\<rparr>,
      \<lparr>classId = 2, subject = ''CS'', prereqs = node AND []\<rparr>,
      \<lparr>classId = 3, subject = ''CS'', prereqs = node AND [leaf ''CS'' 2]\<rparr>]"
    by (simp add: node_def leaf_def isCourseInfo_def)
  have h7: "determineMajorPlan noBigNumbers
     [\<lparr>classId = 1, subject = ''CS'', prereqs = node AND [leaf ''CS'' 2, leaf ''CS'' 3]\<rparr>,
      \<lparr>classId = 2, subject = ''CS'', prereqs = node AND []\<rparr>,
      \<lparr>classId = 3, subject = ''CS'', prereqs = node AND [leaf ''CS'' 2]\<rparr>]
     = Inr (Some
     [\<lparr>classId = 2, subject = ''CS'', prereqs = node AND []\<rparr>,
      \<lparr>classId = 3, subject = ''CS'', prereqs = node AND [leaf ''CS'' 2]\<rparr>,
      \<lparr>classId = 1, subject = ''CS'', prereqs = node AND [leaf ''CS'' 2, leaf ''CS'' 3]\<rparr>])"
    by (simp add: determineMajorPlan_def majorPlanLoop.simps areAllCoursesTaken_def map_size_def
        map_values_def natToString.simps eval_defs)
  from determineMajorPlan_plan [OF h1 h2 h3 h4 h5]
  have "\<exists>plan. determineMajorPlan noBigNumbers
     [\<lparr>classId = 1, subject = ''CS'', prereqs = node AND [leaf ''CS'' 2, leaf ''CS'' 3]\<rparr>,
      \<lparr>classId = 2, subject = ''CS'', prereqs = node AND []\<rparr>,
      \<lparr>classId = 3, subject = ''CS'', prereqs = node AND [leaf ''CS'' 2]\<rparr>] = Inr (Some plan)
     \<and> mset plan = mset
     [\<lparr>classId = 1, subject = ''CS'', prereqs = node AND [leaf ''CS'' 2, leaf ''CS'' 3]\<rparr>,
      \<lparr>classId = 2, subject = ''CS'', prereqs = node AND []\<rparr>,
      \<lparr>classId = 3, subject = ''CS'', prereqs = node AND [leaf ''CS'' 2]\<rparr>]
     \<and> distinct plan"
    by blast
  with h1 h2 h3 h4 h5 h6 h7 show ?thesis by blast
qed

text \<open>
  The first hypothesis concerns every map, not only \<open>S\<close>: \<open>every\<close> and \<open>some\<close> stop
  early, so a malformed node that the scan against \<open>S\<close> never reaches can be reached
  against a larger map. Below, the inner \<open>and\<close> node fails at its first value while CS2
  is not taken, and throws on its second value once CS2 is taken.
\<close>

lemma short_circuit_hides_malformed:
  "isPreReqSatisfied bigToString (node OR [node AND [leaf ''CS'' 2, node ''xor'' []], leaf ''CS'' 1])
     [(''CS1'', \<lparr>classId = 1, subject = ''CS'', prereqs = node AND []\<rparr>)] = Inr True
   \<and> isPreReqSatisfied bigToString (node OR [node AND [leaf ''CS'' 2, node ''xor'' []], leaf ''CS'' 1])
     [(''CS1'', \<lparr>classId = 1, subject = ''CS'', prereqs = node AND []\<rparr>),
      (''CS2'', \<lparr>classId = 2, subject = ''CS'', prereqs = node AND []\<rparr>)] = Inl UnexpectedPrereqStructure"
  by (simp add: natToString.simps eval_defs)

end
